theory Spec2Isabelle
  imports Main
begin

section \<open>Shared vocabulary\<close>

text \<open>
  Go strings and byte slices are both sequences of bytes; an Isabelle \<open>char\<close> is one
  byte, so both are modelled as \<open>char list\<close>.  A nil slice and an empty slice are the
  empty list.
\<close>

type_synonym bytes = "char list"

text \<open>
  Every error value the modelled functions can return.  \<open>ExternalError\<close> carries the
  message of an error produced outside the repository (operating system, libraries).
\<close>

datatype error =
    clipboardUnavailableErr
  | ClipboardNotInitialized
  | NoPrivateKeyFound
  | CouldNotReadPrivateKey string
  | CouldNotParsePrivateKey
  | CouldNotSignPayload
  | NonOKStatus nat bytes
  | NotExist string
  | ExternalError string

text \<open>A Go call either returns or panics (here: an index out of range).\<close>

datatype 'a outcome = Panics | Returns 'a

section \<open>Command-line clipboard tools (\<open>clipboard/clipboard_cli.go\<close>)\<close>

definition cliXsel :: string where "cliXsel = ''xsel''"
definition cliXclip :: string where "cliXclip = ''xclip''"
definition cliWlcopy :: string where "cliWlcopy = ''wl-copy''"
definition cliWlpaste :: string where "cliWlpaste = ''wl-paste''"
definition cliTermuxClipboardGet :: string where "cliTermuxClipboardGet = ''termux-clipboard-get''"
definition cliTermuxClipboardSet :: string where "cliTermuxClipboardSet = ''termux-clipboard-set''"

definition xselPasteArgs :: "string list" where
  "xselPasteArgs = [cliXsel, ''--output'', ''--clipboard'']"
definition xselCopyArgs :: "string list" where
  "xselCopyArgs = [cliXsel, ''--input'', ''--clipboard'']"
definition xclipPasteArgs :: "string list" where
  "xclipPasteArgs = [cliXclip, ''-out'', ''-selection'', ''clipboard'']"
definition xclipCopyArgs :: "string list" where
  "xclipCopyArgs = [cliXclip, ''-in'', ''-selection'', ''clipboard'']"
definition wlpasteArgs :: "string list" where
  "wlpasteArgs = [cliWlpaste, ''--no-newline'']"
definition wlcopyArgs :: "string list" where
  "wlcopyArgs = [cliWlcopy]"
definition termuxPasteArgs :: "string list" where
  "termuxPasteArgs = [cliTermuxClipboardGet]"
definition termuxCopyArgs :: "string list" where
  "termuxCopyArgs = [cliTermuxClipboardSet]"

text \<open>The package-level variables of the file.\<close>

record cliVars =
  CLIClipboardAvailable :: bool
  pasteCmdArgs :: "string list"
  copyCmdArgs :: "string list"

text \<open>Their values before \<open>init\<close> runs: \<open>false\<close> and two nil slices.\<close>

definition cliVars0 :: cliVars where
  "cliVars0 = \<lparr>CLIClipboardAvailable = False, pasteCmdArgs = [], copyCmdArgs = []\<rparr>"

text \<open>
  \<open>initCLIClipboard\<close>.  The host is seen through \<open>getenv\<close> (\<open>os.Getenv\<close>, the empty
  string for an unset variable) and \<open>hasCommand\<close> (\<open>exec.LookPath\<close> succeeded).
\<close>

definition initCLIClipboard ::
  "(string \<Rightarrow> string) \<Rightarrow> (string \<Rightarrow> bool) \<Rightarrow> cliVars \<Rightarrow> cliVars" where
  "initCLIClipboard getenv hasCommand g =
     (if getenv ''WAYLAND_DISPLAY'' \<noteq> '''' \<and> hasCommand cliWlcopy \<and> hasCommand cliWlpaste then
        g\<lparr>pasteCmdArgs := wlpasteArgs, copyCmdArgs := wlcopyArgs, CLIClipboardAvailable := True\<rparr>
      else if hasCommand cliXclip then
        g\<lparr>pasteCmdArgs := xclipPasteArgs, copyCmdArgs := xclipCopyArgs, CLIClipboardAvailable := True\<rparr>
      else if hasCommand cliXsel then
        g\<lparr>pasteCmdArgs := xselPasteArgs, copyCmdArgs := xselCopyArgs, CLIClipboardAvailable := True\<rparr>
      else if hasCommand cliTermuxClipboardSet \<and> hasCommand cliTermuxClipboardGet then
        g\<lparr>pasteCmdArgs := termuxPasteArgs, copyCmdArgs := termuxCopyArgs, CLIClipboardAvailable := True\<rparr>
      else g)"

text \<open>
  \<open>ReadClipboardCLI\<close>.  \<open>cmdOutput name args\<close> stands for running the command and
  capturing its output (\<open>exec.Command(...).Output()\<close>).  The index expression
  \<open>pasteCmdArgs[0]\<close> panics on an empty slice.
\<close>

definition ReadClipboardCLI ::
  "(string \<Rightarrow> string list \<Rightarrow> error + bytes) \<Rightarrow> cliVars \<Rightarrow> (error + bytes) outcome" where
  "ReadClipboardCLI cmdOutput g =
     (if \<not> CLIClipboardAvailable g then Returns (Inl clipboardUnavailableErr)
      else case pasteCmdArgs g of
             [] \<Rightarrow> Panics
           | name # args \<Rightarrow> Returns (cmdOutput name args))"

text \<open>
  \<open>WriteClipboardCLI\<close>.  \<open>cmdPipe name args data\<close> stands for the sequence
  \<open>StdinPipe\<close>, \<open>Start\<close>, \<open>Write\<close>, \<open>Close\<close>, \<open>Wait\<close> and yields the
  first error of that sequence, if any.
\<close>

definition WriteClipboardCLI ::
  "(string \<Rightarrow> string list \<Rightarrow> bytes \<Rightarrow> error option) \<Rightarrow> cliVars \<Rightarrow> bytes \<Rightarrow> error option outcome" where
  "WriteClipboardCLI cmdPipe g data =
     (if \<not> CLIClipboardAvailable g then Returns (Some clipboardUnavailableErr)
      else case copyCmdArgs g of
             [] \<Rightarrow> Panics
           | name # args \<Rightarrow> Returns (cmdPipe name args data))"

section \<open>Signed requests (\<open>util\<close> constants, \<open>commands.doHTTPSRequest\<close>, \<open>server.authMiddleware\<close>)\<close>

definition ProgramName :: string where "ProgramName = ''pb''"
definition HeaderFingerprint :: string where "HeaderFingerprint = ''X-PB-Key-Fingerprint''"
definition HeaderSignature :: string where "HeaderSignature = ''X-PB-Signature''"

text \<open>The \<open>net/http\<close> status codes the code names.\<close>

definition StatusOK :: nat where "StatusOK = 200"
definition StatusBadRequest :: nat where "StatusBadRequest = 400"
definition StatusUnauthorized :: nat where "StatusUnauthorized = 401"
definition StatusInternalServerError :: nat where "StatusInternalServerError = 500"

text \<open>
  The functions of \<open>crypto/sha256\<close>, \<open>encoding/base64\<close> and
  \<open>golang.org/x/crypto/ssh\<close> that the repository calls.  They live outside the
  repository, so the model takes them as a parameter: \<open>'pk\<close> is \<open>ssh.PublicKey\<close>,
  \<open>'sk\<close> is \<open>ssh.Signer\<close>, \<open>'sig\<close> is \<open>ssh.Signature\<close>.  \<open>Sign\<close> also receives the
  bytes it draws from \<open>rand.Reader\<close>; a function returning an error in Go returns
  \<open>None\<close> here, and \<open>Verify\<close> is true when Go's \<open>Verify\<close> returns a nil error.
  \<open>parseAuthorizedKeyLine\<close> is what \<open>ssh.ParseAuthorizedKey\<close> does with one line of
  its input (see below).
\<close>

record ('pk, 'sk, 'sig) sshlib =
  Sum256 :: "bytes \<Rightarrow> bytes"
  EncodeToString :: "bytes \<Rightarrow> string"
  DecodeString :: "string \<Rightarrow> bytes option"
  Marshal :: "'sig \<Rightarrow> bytes"
  Unmarshal :: "bytes \<Rightarrow> 'sig option"
  Sign :: "'sk \<Rightarrow> bytes \<Rightarrow> bytes \<Rightarrow> 'sig option"
  Verify :: "'pk \<Rightarrow> bytes \<Rightarrow> 'sig \<Rightarrow> bool"
  PublicKey :: "'sk \<Rightarrow> 'pk"
  FingerprintSHA256 :: "'pk \<Rightarrow> string"
  ParsePrivateKey :: "bytes \<Rightarrow> 'sk option"
  parseAuthorizedKeyLine :: "bytes \<Rightarrow> 'pk option"

text \<open>
  A body stream (\<open>io.Reader\<close>): the bytes not yet read, and whether reading it ends
  in an error instead of end-of-file.  \<open>ReadAll\<close> returns every pending byte and leaves
  the stream drained; \<open>NewBuffer\<close> is a fresh in-memory stream over the given bytes
  (\<open>bytes.NewBuffer\<close>, \<open>bytes.NewBufferString\<close>, wrapped or not in \<open>io.NopCloser\<close>).
\<close>

record reader =
  pending :: bytes
  readFails :: bool

definition ReadAll :: "reader \<Rightarrow> (error + bytes) \<times> reader" where
  "ReadAll rd =
     (if readFails rd then (Inl (ExternalError ''read''), rd\<lparr>pending := []\<rparr>)
      else (Inr (pending rd), rd\<lparr>pending := []\<rparr>))"

definition NewBuffer :: "bytes \<Rightarrow> reader" where
  "NewBuffer b = \<lparr>pending = b, readFails = False\<rparr>"

text \<open>
  An HTTP request.  The headers are kept by name with one value each, the first one,
  which is all that \<open>Header.Get\<close> and \<open>Header.Set\<close> deal with (both put the name in
  canonical form first).  \<open>Get\<close> is \<open>Header.Get\<close>: the value of the header, or the
  empty string when the header is absent.  What the request holds as its body is a
  parameter of the type: a \<open>reader request\<close> holds the stream itself, an
  \<open>address request\<close> (below) holds a reference to a stream object.
\<close>

record 'b request =
  Method :: string
  URL :: string
  Header :: "string \<rightharpoonup> string"
  Body :: 'b

definition Get :: "(string \<rightharpoonup> string) \<Rightarrow> string \<Rightarrow> string" where
  "Get h k = (case h k of None \<Rightarrow> [] | Some v \<Rightarrow> v)"

text \<open>
  What the handler returned by \<open>authMiddleware\<close> does with a request: it either answers
  itself through \<open>http.Error(w, message, status)\<close> and returns, or calls
  \<open>next.ServeHTTP(w, r)\<close> with the request it then holds.
\<close>

datatype 'b served = http_Error string nat | next_ServeHTTP "'b request"

definition authMiddleware ::
  "('pk, 'sk, 'sig) sshlib \<Rightarrow> (string \<rightharpoonup> 'pk) \<Rightarrow> reader request \<Rightarrow> reader served" where
  "authMiddleware L authorizedKeys r =
     (let keyFingerprint = Get (Header r) HeaderFingerprint;
          signatureB64 = Get (Header r) HeaderSignature
      in
      if keyFingerprint = [] \<or> signatureB64 = [] then
        http_Error ''Missing authentication headers'' StatusUnauthorized
      else
        case authorizedKeys keyFingerprint of
          None \<Rightarrow> http_Error ''Unknown public key'' StatusUnauthorized
        | Some pubKey \<Rightarrow>
           (case ReadAll (Body r) of
              (Inl err, drained) \<Rightarrow>
                http_Error ''Failed to read request body'' StatusInternalServerError
            | (Inr body, drained) \<Rightarrow>
               (let r' = r\<lparr>Body := NewBuffer body\<rparr>;
                    hash = Sum256 L body
                in
                case DecodeString L signatureB64 of
                  None \<Rightarrow> http_Error ''Invalid signature encoding'' StatusBadRequest
                | Some signatureBytes \<Rightarrow>
                   (case Unmarshal L signatureBytes of
                      None \<Rightarrow> http_Error ''Invalid SSH signature format'' StatusBadRequest
                    | Some sshSig \<Rightarrow>
                       if \<not> Verify L pubKey hash sshSig then
                         http_Error ''Signature verification failed'' StatusUnauthorized
                       else next_ServeHTTP r'))))"

subsection \<open>The middleware on stream objects\<close>

text \<open>
  In Go \<open>r.Body\<close> is a reference to a stream object: a read changes the object for
  everyone who holds the reference, and the handler assigns \<open>r.Body\<close>.  The
  definition above gives the answer of the middleware from what the request holds; the
  one below is the same function body with the stream objects in a store, so that what
  happens to the stream the request came with and which stream is handed on can be told
  apart.  \<open>object\<close> is the stream at each address and \<open>allocated\<close> the number of
  addresses in use, which is also the next free one.  \<open>ReadAllAt\<close> is \<open>io.ReadAll\<close> on
  the stream at an address: it returns what \<open>ReadAll\<close> returns and leaves that object
  as \<open>ReadAll\<close> leaves it.  \<open>NewBufferAt\<close> is \<open>io.NopCloser(bytes.NewBuffer(b))\<close>: a
  new stream object over \<open>b\<close> at a new address.
\<close>

type_synonym address = nat

record streams =
  object :: "address \<Rightarrow> reader"
  allocated :: nat

definition ReadAllAt :: "streams \<Rightarrow> address \<Rightarrow> (error + bytes) \<times> streams" where
  "ReadAllAt \<sigma> a =
     (case ReadAll (object \<sigma> a) of
        (res, drained) \<Rightarrow> (res, \<sigma>\<lparr>object := (object \<sigma>)(a := drained)\<rparr>))"

definition NewBufferAt :: "streams \<Rightarrow> bytes \<Rightarrow> address \<times> streams" where
  "NewBufferAt \<sigma> b =
     (allocated \<sigma>,
      \<sigma>\<lparr>object := (object \<sigma>)(allocated \<sigma> := NewBuffer b), allocated := allocated \<sigma> + 1\<rparr>)"

text \<open>
  The handler returns what it did with the request and the store it leaves behind.
  Each line is the line of \<open>authMiddleware\<close> above; \<open>io.ReadAll(r.Body)\<close> reads the
  object \<open>r.Body\<close> refers to, and the assignment to \<open>r.Body\<close> stores the address of
  the new buffer in the request.
\<close>

definition authMiddlewareOnStreams ::
  "('pk, 'sk, 'sig) sshlib \<Rightarrow> (string \<rightharpoonup> 'pk) \<Rightarrow> streams \<Rightarrow> address request
     \<Rightarrow> address served \<times> streams" where
  "authMiddlewareOnStreams L authorizedKeys \<sigma> r =
     (let keyFingerprint = Get (Header r) HeaderFingerprint;
          signatureB64 = Get (Header r) HeaderSignature
      in
      if keyFingerprint = [] \<or> signatureB64 = [] then
        (http_Error ''Missing authentication headers'' StatusUnauthorized, \<sigma>)
      else
        case authorizedKeys keyFingerprint of
          None \<Rightarrow> (http_Error ''Unknown public key'' StatusUnauthorized, \<sigma>)
        | Some pubKey \<Rightarrow>
           (case ReadAllAt \<sigma> (Body r) of
              (Inl err, \<sigma>1) \<Rightarrow>
                (http_Error ''Failed to read request body'' StatusInternalServerError, \<sigma>1)
            | (Inr body, \<sigma>1) \<Rightarrow>
               (case NewBufferAt \<sigma>1 body of
                  (buffer, \<sigma>2) \<Rightarrow>
                   (let r' = r\<lparr>Body := buffer\<rparr>;
                        hash = Sum256 L body
                    in
                    case DecodeString L signatureB64 of
                      None \<Rightarrow> (http_Error ''Invalid signature encoding'' StatusBadRequest, \<sigma>2)
                    | Some signatureBytes \<Rightarrow>
                       (case Unmarshal L signatureBytes of
                          None \<Rightarrow>
                            (http_Error ''Invalid SSH signature format'' StatusBadRequest, \<sigma>2)
                        | Some sshSig \<Rightarrow>
                           if \<not> Verify L pubKey hash sshSig then
                             (http_Error ''Signature verification failed'' StatusUnauthorized,
                              \<sigma>2)
                           else (next_ServeHTTP r', \<sigma>2))))))"

text \<open>
  The request that holds the streams themselves, for a request that refers to them: it
  links the two definitions (\<open>authMiddlewareOnStreams_answer\<close> below).
\<close>

definition contents :: "streams \<Rightarrow> address request \<Rightarrow> reader request" where
  "contents \<sigma> r =
     \<lparr>Method = Method r, URL = URL r, Header = Header r, Body = object \<sigma> (Body r)\<rparr>"

subsection \<open>The client: key discovery and request signing\<close>

text \<open>
  What the client reads from its host: the \<open>--key\<close> flag (\<open>keyPath\<close>, empty when not
  given), the home directory, \<open>Stat p\<close> for "\<open>os.Stat(p)\<close> returned no error",
  \<open>ReadFile\<close>, \<open>filepath.Join\<close>, the bytes of \<open>rand.Reader\<close>, whether
  \<open>http.NewRequest\<close> accepts a method and a URL, and \<open>Do\<close>, the network exchange of
  \<open>client.Do\<close>.
\<close>

record response =
  StatusCode :: nat
  ResponseBody :: reader

record clientHost =
  keyPath :: string
  UserHomeDir :: "error + string"
  Stat :: "string \<Rightarrow> bool"
  ReadFile :: "string \<Rightarrow> error + bytes"
  Join :: "string list \<Rightarrow> string"
  rand :: bytes
  NewRequestOK :: "string \<Rightarrow> string \<Rightarrow> bool"
  Do :: "reader request \<Rightarrow> error + response"

definition defaultKeys :: "string list" where
  "defaultKeys = [''id_ed25519'', ''id_ecdsa'', ''id_rsa'']"

text \<open>The \<open>for ... range defaultKeys\<close> loop of \<open>findPrivateKey\<close> and what follows it.\<close>

fun searchDefaultKeys :: "clientHost \<Rightarrow> string \<Rightarrow> string list \<Rightarrow> error + string" where
  "searchDefaultKeys H sshDir [] = Inl NoPrivateKeyFound"
| "searchDefaultKeys H sshDir (keyFile # keyFiles) =
     (let path = Join H [sshDir, keyFile]
      in if Stat H path then Inr path else searchDefaultKeys H sshDir keyFiles)"

definition findPrivateKey :: "clientHost \<Rightarrow> error + string" where
  "findPrivateKey H =
     (case UserHomeDir H of
        Inl err \<Rightarrow> Inl err
      | Inr home \<Rightarrow>
         (let programKeyPath = Join H [home, ''.config'', ProgramName, ''id_ed25519'']
          in if Stat H programKeyPath then Inr programKeyPath
             else searchDefaultKeys H (Join H [home, ''.ssh'']) defaultKeys))"

definition getSigner :: "('pk, 'sk, 'sig) sshlib \<Rightarrow> clientHost \<Rightarrow> error + 'sk" where
  "getSigner L H =
     (case (if keyPath H \<noteq> [] then Inr (keyPath H) else findPrivateKey H) of
        Inl err \<Rightarrow> Inl err
      | Inr pathToKey \<Rightarrow>
         (case ReadFile H pathToKey of
            Inl err \<Rightarrow> Inl (CouldNotReadPrivateKey pathToKey)
          | Inr privateKeyBytes \<Rightarrow>
             (case ParsePrivateKey L privateKeyBytes of
                None \<Rightarrow> Inl CouldNotParsePrivateKey
              | Some signer \<Rightarrow> Inr signer)))"

text \<open>
  \<open>doHTTPSRequest\<close> returns its result together with the requests it handed to
  \<open>client.Do\<close>, in order: the empty list means that no network request was attempted.
\<close>

definition doHTTPSRequest ::
  "('pk, 'sk, 'sig) sshlib \<Rightarrow> clientHost \<Rightarrow> string \<Rightarrow> string \<Rightarrow> string
     \<Rightarrow> (error + string) \<times> reader request list" where
  "doHTTPSRequest L H method url data =
     (case getSigner L H of
        Inl err \<Rightarrow> (Inl err, [])
      | Inr signer \<Rightarrow>
         (let payloadHash = Sum256 L data
          in case Sign L signer (rand H) payloadHash of
               None \<Rightarrow> (Inl CouldNotSignPayload, [])
             | Some signature \<Rightarrow>
                 if \<not> NewRequestOK H method url then (Inl (ExternalError ''http.NewRequest''), [])
                 else
                   (let req = \<lparr>Method = method, URL = url, Header = Map.empty,
                              Body = NewBuffer data\<rparr>;
                        req = req\<lparr>Header := (Header req)
                                (HeaderFingerprint \<mapsto> FingerprintSHA256 L (PublicKey L signer))\<rparr>;
                        signatureBytes = Marshal L signature;
                        req = req\<lparr>Header := (Header req)
                                (HeaderSignature \<mapsto> EncodeToString L signatureBytes)\<rparr>
                    in case Do H req of
                         Inl err \<Rightarrow> (Inl err, [req])
                       | Inr resp \<Rightarrow>
                          (case ReadAll (ResponseBody resp) of
                             (Inl err, drained) \<Rightarrow> (Inl err, [req])
                           | (Inr body, drained) \<Rightarrow>
                               if StatusCode resp \<noteq> StatusOK
                               then (Inl (NonOKStatus (StatusCode resp) body), [req])
                               else (Inr body, [req])))))"

text \<open>
  A small executable instance of the library interface, used to run the definitions on
  concrete inputs: a key is one byte, the digest is the payload itself, a signature is
  the key followed by the digest, the text encoding prefixes a \<open>b\<close>, and a public-key
  line is \<open>key\<close>, a space and the key.
\<close>

definition demoLib :: "(char, char, bytes) sshlib" where
  "demoLib =
     \<lparr>Sum256 = (\<lambda>b. b),
      EncodeToString = (\<lambda>b. CHR ''b'' # b),
      DecodeString = (\<lambda>s. case s of [] \<Rightarrow> None | c # b \<Rightarrow> if c = CHR ''b'' then Some b else None),
      Marshal = (\<lambda>s. s),
      Unmarshal = (\<lambda>b. case b of [] \<Rightarrow> None | k # d \<Rightarrow> Some (k # d)),
      Sign = (\<lambda>k rnd d. Some (k # d)),
      Verify = (\<lambda>pk d s. s = pk # d),
      PublicKey = (\<lambda>k. k),
      FingerprintSHA256 = (\<lambda>pk. ''SHA256:'' @ [pk]),
      ParsePrivateKey = (\<lambda>b. case b of [k] \<Rightarrow> Some k | _ \<Rightarrow> None),
      parseAuthorizedKeyLine = (\<lambda>l. if take 4 l = ''key '' \<and> length l = 5 then Some (l ! 4) else None)\<rparr>"

text \<open>A host whose only key file is the program-specific one, holding the key \<open>K\<close>.\<close>

definition demoHost :: clientHost where
  "demoHost =
     \<lparr>keyPath = [],
      UserHomeDir = Inr ''/home/u'',
      Stat = (\<lambda>p. p = ''/home/u/.config/pb/id_ed25519''),
      ReadFile = (\<lambda>p. if p = ''/home/u/.config/pb/id_ed25519'' then Inr ''K''
                       else Inl (ExternalError ''open'')),
      Join = (\<lambda>ps. foldr (\<lambda>p acc. if acc = [] then p else p @ ''/'' @ acc) ps []),
      rand = [],
      NewRequestOK = (\<lambda>m u. True),
      Do = (\<lambda>req. Inr \<lparr>StatusCode = 200, ResponseBody = NewBuffer ''ok''\<rparr>)\<rparr>"

text \<open>A trust store holding the key \<open>K\<close>, and a request with the two headers and a body.\<close>

definition demoKeys :: "string \<rightharpoonup> char" where
  "demoKeys = [''SHA256:K'' \<mapsto> CHR ''K'']"

definition demoRequest :: "string \<Rightarrow> string \<Rightarrow> bytes \<Rightarrow> reader request" where
  "demoRequest fingerprint signatureB64 body =
     \<lparr>Method = ''POST'', URL = ''https://localhost:2850/copy'',
      Header = [HeaderFingerprint \<mapsto> fingerprint, HeaderSignature \<mapsto> signatureB64],
      Body = NewBuffer body\<rparr>"

text \<open>
  A store with one stream object, the body of a request as it arrives, and a request
  that refers to it.
\<close>

definition demoStreams :: "bytes \<Rightarrow> streams" where
  "demoStreams body = \<lparr>object = (\<lambda>a. NewBuffer [])(0 := NewBuffer body), allocated = 1\<rparr>"

definition demoRequestAt :: "string \<Rightarrow> string \<Rightarrow> address \<Rightarrow> address request" where
  "demoRequestAt fingerprint signatureB64 a =
     \<lparr>Method = ''POST'', URL = ''https://localhost:2850/copy'',
      Header = [HeaderFingerprint \<mapsto> fingerprint, HeaderSignature \<mapsto> signatureB64],
      Body = a\<rparr>"

text \<open>
  A host with two key files: the program-specific one does not hold a key, the
  conventional \<open>~/.ssh/id_ed25519\<close> holds the key \<open>K\<close>.
\<close>

definition twoKeyHost :: clientHost where
  "twoKeyHost =
     demoHost\<lparr>
       Stat := (\<lambda>p. p = ''/home/u/.config/pb/id_ed25519'' \<or> p = ''/home/u/.ssh/id_ed25519''),
       ReadFile := (\<lambda>p. if p = ''/home/u/.config/pb/id_ed25519'' then Inr ''not a key''
                         else if p = ''/home/u/.ssh/id_ed25519'' then Inr ''K''
                         else Inl (ExternalError ''open''))\<rparr>"

section \<open>The trust store (\<open>server.loadAuthorizedKeys\<close>)\<close>

text \<open>
  \<open>ssh.ParseAuthorizedKey\<close> belongs to \<open>golang.org/x/crypto/ssh\<close>.  Its loop is
  modelled as that library has it: while input remains, it cuts the input at the first
  newline (\<open>rest\<close> is what follows it, nil when there is none), tries the line, returns
  the key and \<open>rest\<close> when the line holds one, and otherwise goes on with \<open>rest\<close>; when
  the input is used up it returns the error "no key found" with a nil \<open>rest\<close>.  What it
  does with a single line (carriage return, surrounding space, comments, options,
  base64 and key decoding) is the parameter \<open>parseAuthorizedKeyLine\<close>.  The result is
  the key (\<open>None\<close> for the error) and \<open>rest\<close>.
\<close>

definition newline :: char where "newline = CHR 0x0A"

definition cutLine :: "bytes \<Rightarrow> bytes \<times> bytes" where
  "cutLine input =
     (takeWhile (\<lambda>c. c \<noteq> newline) input, drop 1 (dropWhile (\<lambda>c. c \<noteq> newline) input))"

lemma cutLine_shorter: "input \<noteq> [] \<Longrightarrow> length (snd (cutLine input)) < length input"
proof -
  assume nonempty: "input \<noteq> []"
  define ys where "ys = dropWhile (\<lambda>c. c \<noteq> newline) input"
  have le: "length ys \<le> length input"
    unfolding ys_def by (rule length_dropWhile_le)
  have "length (drop 1 ys) < length input"
    using le nonempty by (cases ys) auto
  then show ?thesis
    by (simp add: cutLine_def ys_def)
qed

function ParseAuthorizedKey ::
  "('pk, 'sk, 'sig) sshlib \<Rightarrow> bytes \<Rightarrow> 'pk option \<times> bytes" where
  "ParseAuthorizedKey L input =
     (if input = [] then (None, [])
      else case parseAuthorizedKeyLine L (fst (cutLine input)) of
             Some out \<Rightarrow> (Some out, snd (cutLine input))
           | None \<Rightarrow> ParseAuthorizedKey L (snd (cutLine input)))"
  by pat_completeness auto
termination
  by (relation "measure (\<lambda>(L, input). length input)") (auto simp: cutLine_shorter)

declare ParseAuthorizedKey.simps [simp del]

lemma ParseAuthorizedKey_shorter:
  "input \<noteq> [] \<Longrightarrow> length (snd (ParseAuthorizedKey L input)) < length input"
proof (induction L input rule: ParseAuthorizedKey.induct)
  case (1 L input)
  note shorter = cutLine_shorter [OF \<open>input \<noteq> []\<close>]
  show ?case
  proof (cases "parseAuthorizedKeyLine L (fst (cutLine input))")
    case (Some out)
    with shorter "1.prems" show ?thesis
      by (simp add: ParseAuthorizedKey.simps [of L input])
  next
    case None
    show ?thesis
    proof (cases "snd (cutLine input) = []")
      case True
      with None "1.prems" show ?thesis
        by (simp add: ParseAuthorizedKey.simps [of L input] ParseAuthorizedKey.simps [of L "[]"])
    next
      case False
      with "1.IH" [OF "1.prems" None] have
        "length (snd (ParseAuthorizedKey L (snd (cutLine input)))) < length (snd (cutLine input))"
        by simp
      with None shorter "1.prems" show ?thesis
        by (simp add: ParseAuthorizedKey.simps [of L input])
    qed
  qed
qed

text \<open>
  The \<open>for len(bytes) > 0\<close> loop of \<open>loadAuthorizedKeys\<close>, with the lines it writes
  to the log (the format strings of \<open>log.Printf\<close>, in order).  The first component of
  the parser's result is \<open>pubKey\<close> (\<open>None\<close> when \<open>err\<close> is not nil), the second is
  \<open>rest\<close>.  Both branches end with \<open>bytes = rest\<close>; the error branch logs before it.
\<close>

function loadLoop ::
  "('pk, 'sk, 'sig) sshlib \<Rightarrow> (string \<rightharpoonup> 'pk) \<Rightarrow> string list \<Rightarrow> bytes
     \<Rightarrow> (string \<rightharpoonup> 'pk) \<times> string list" where
  "loadLoop L authorizedKeys logged bytes =
     (if bytes = [] then (authorizedKeys, logged)
      else case fst (ParseAuthorizedKey L bytes) of
             None \<Rightarrow>
               loadLoop L authorizedKeys (logged @ [''Could not parse authorized key: %v''])
                 (snd (ParseAuthorizedKey L bytes))
           | Some pubKey \<Rightarrow>
               loadLoop L (authorizedKeys(FingerprintSHA256 L pubKey \<mapsto> pubKey)) logged
                 (snd (ParseAuthorizedKey L bytes)))"
  by pat_completeness auto
termination
  by (relation "measure (\<lambda>(L, authorizedKeys, logged, bytes). length bytes)")
    (auto simp: ParseAuthorizedKey_shorter)

declare loadLoop.simps [simp del]

text \<open>\<open>os.IsNotExist\<close> on the error of \<open>os.ReadFile\<close>.\<close>

definition IsNotExist :: "error \<Rightarrow> bool" where
  "IsNotExist err = (case err of NotExist p \<Rightarrow> True | _ \<Rightarrow> False)"

text \<open>\<open>loadAuthorizedKeys\<close> returns its result and what it logged.\<close>

definition loadAuthorizedKeys ::
  "('pk, 'sk, 'sig) sshlib \<Rightarrow> (string \<Rightarrow> error + bytes) \<Rightarrow> string
     \<Rightarrow> (error + (string \<rightharpoonup> 'pk)) \<times> string list" where
  "loadAuthorizedKeys L readFile path =
     (case readFile path of
        Inl err \<Rightarrow>
          if IsNotExist err then
            (Inr Map.empty,
             [''authorized_keys file not found at %s. Server starting with no authorized keys.'',
              ''Use '' @ [CHR 0x27] @ ''%s key-add'' @ [CHR 0x27] @ '' to authorize a client.''])
          else (Inl err, [])
      | Inr bytes \<Rightarrow>
          (Inr (fst (loadLoop L Map.empty [] bytes)),
           snd (loadLoop L Map.empty [] bytes) @ [''Loaded %d authorized keys from %s'']))"

text \<open>
  For stating what the loop computes: the lines of a file, cut as
  \<open>ParseAuthorizedKey\<close> cuts them, and the effect of one line on the store.
\<close>

function splitLines :: "bytes \<Rightarrow> bytes list" where
  "splitLines input =
     (if input = [] then [] else fst (cutLine input) # splitLines (snd (cutLine input)))"
  by pat_completeness auto
termination
  by (relation "measure length") (auto simp: cutLine_shorter)

declare splitLines.simps [simp del]

definition addKeyLine ::
  "('pk, 'sk, 'sig) sshlib \<Rightarrow> (string \<rightharpoonup> 'pk) \<Rightarrow> bytes \<Rightarrow> (string \<rightharpoonup> 'pk)" where
  "addKeyLine L authorizedKeys line =
     (case parseAuthorizedKeyLine L line of
        None \<Rightarrow> authorizedKeys
      | Some pubKey \<Rightarrow> authorizedKeys(FingerprintSHA256 L pubKey \<mapsto> pubKey))"

text \<open>
  An authorized-keys file with two public-key lines and one line that holds no key, and
  a file system that has this file only.
\<close>

definition demoAuthorizedKeys :: bytes where
  "demoAuthorizedKeys =
     ''key A'' @ [newline] @ ''no key here'' @ [newline] @ ''key B'' @ [newline]"

definition demoFiles :: "string \<Rightarrow> error + bytes" where
  "demoFiles p =
     (if p = ''/home/u/.config/pb/authorized_keys'' then Inr demoAuthorizedKeys
      else Inl (NotExist p))"

section \<open>The clipboard manager (\<open>clipboard/clipboard.go\<close> and its platform files)\<close>

text \<open>
  A \<open>clipboarder\<close> value is \<open>&systemClipboard{}\<close>, \<open>&cliClipboard{}\<close> (both without
  fields) or a pointer to an \<open>inMemoryClipboard\<close>; the nil interface is \<open>None\<close>.  The
  \<open>data\<close> field of the in-memory clipboards is kept in a store indexed by pointer.
\<close>

type_synonym ptr = nat

datatype clipboarder = systemClipboard | cliClipboard | inMemoryClipboard ptr

record clipboardState =
  active :: "clipboarder option"
  fallback :: ptr
  usingFallback :: bool

text \<open>
  Everything the manager's functions read or change: the package variable \<open>state\<close>
  (\<open>None\<close> for nil), the \<open>data\<close> fields (\<open>inMemoryData\<close>), and the goroutines that run
  \<open>startHealthCheck\<close>: \<open>healthChecks\<close> counts those in its loop, \<open>leaving\<close> those that
  have left the loop through \<open>switchToSystem\<close> and have not returned yet.  The mutexes
  are not modelled: what a function does between \<open>Lock\<close> and \<open>Unlock\<close> is one
  uninterrupted step.
\<close>

record world =
  state :: "clipboardState option"
  inMemoryData :: "ptr \<Rightarrow> bytes"
  healthChecks :: nat
  leaving :: nat

definition world0 :: world where
  "world0 = \<lparr>state = None, inMemoryData = (\<lambda>p. []), healthChecks = 0, leaving = 0\<rparr>"

text \<open>
  What the platform files decide: the build tag, whether \<open>xclip.Init()\<close> returned no
  error, and \<open>CLIClipboardAvailable\<close>.
\<close>

record platform =
  android :: bool
  xclipInitOK :: bool
  cliAvailable :: bool

definition initPlatformClipboard :: "platform \<Rightarrow> ptr \<Rightarrow> clipboardState \<Rightarrow> clipboardState" where
  "initPlatformClipboard P fb s =
     (if android P then
        (if cliAvailable P then s\<lparr>active := Some cliClipboard, usingFallback := False\<rparr>
         else s\<lparr>active := Some (inMemoryClipboard fb), usingFallback := True\<rparr>)
      else
        (if xclipInitOK P then s\<lparr>active := Some systemClipboard, usingFallback := False\<rparr>
         else if cliAvailable P then s\<lparr>active := Some cliClipboard, usingFallback := False\<rparr>
         else s\<lparr>active := Some (inMemoryClipboard fb), usingFallback := True\<rparr>))"

definition getPrimaryClipboard :: "platform \<Rightarrow> clipboarder" where
  "getPrimaryClipboard P = (if android P then cliClipboard else systemClipboard)"

definition getCLIClipboard :: clipboarder where
  "getCLIClipboard = cliClipboard"

text \<open>\<open>Init\<close> allocates the one in-memory clipboard of the package, here at pointer 0.\<close>

definition Init :: "platform \<Rightarrow> world \<Rightarrow> world" where
  "Init P w =
     (case state w of
        Some s \<Rightarrow> w
      | None \<Rightarrow>
          w\<lparr>state := Some (initPlatformClipboard P 0
                             \<lparr>active = None, fallback = 0, usingFallback = False\<rparr>),
            inMemoryData := (inMemoryData w)(0 := [])\<rparr>)"

definition UseInMemoryClipboard :: "world \<Rightarrow> world" where
  "UseInMemoryClipboard w =
     (case state w of
        None \<Rightarrow> w
      | Some s \<Rightarrow>
          w\<lparr>state := Some (s\<lparr>active := Some (inMemoryClipboard (fallback s)),
                              usingFallback := True\<rparr>)\<rparr>)"

definition UseCliClipboard :: "world \<Rightarrow> error option \<times> world" where
  "UseCliClipboard w =
     (case state w of
        None \<Rightarrow> (Some ClipboardNotInitialized, w)
      | Some s \<Rightarrow>
          (None, w\<lparr>state := Some (s\<lparr>active := Some getCLIClipboard, usingFallback := False\<rparr>)\<rparr>))"

definition getActiveClipboard :: "world \<Rightarrow> clipboarder option" where
  "getActiveClipboard w = (case state w of None \<Rightarrow> None | Some s \<Rightarrow> active s)"

definition isUsingFallback :: "world \<Rightarrow> bool" where
  "isUsingFallback w = (case state w of None \<Rightarrow> True | Some s \<Rightarrow> usingFallback s)"

text \<open>
  \<open>switchToFallback\<close>: \<open>go startHealthCheck()\<close> adds one health check.  The new
  goroutine touches nothing before it waits in its loop, so it is counted from the step
  that decides to start it.
\<close>

definition switchToFallback :: "world \<Rightarrow> world" where
  "switchToFallback w =
     (case state w of
        None \<Rightarrow> w
      | Some s \<Rightarrow>
          (let wasUsingFallback = usingFallback s;
               w' = w\<lparr>state := Some (s\<lparr>active := Some (inMemoryClipboard (fallback s)),
                                        usingFallback := True\<rparr>)\<rparr>
           in if \<not> wasUsingFallback then w'\<lparr>healthChecks := healthChecks w' + 1\<rparr> else w'))"

text \<open>
  \<open>switchToSystem\<close> in its two parts: the assignments under the lock, and the last
  statement, which offers a value on \<open>healthCheckDone\<close> without blocking.  The only
  receivers of that channel are goroutines of \<open>startHealthCheck\<close> waiting in the \<open>select\<close>
  of their loop; \<open>received\<close> says whether one of them took the value, in which case that
  one returns.
\<close>

definition switchToSystemLocked :: "platform \<Rightarrow> world \<Rightarrow> world" where
  "switchToSystemLocked P w =
     (case state w of
        None \<Rightarrow> w
      | Some s \<Rightarrow>
          w\<lparr>state := Some (s\<lparr>active := Some (getPrimaryClipboard P), usingFallback := False\<rparr>)\<rparr>)"

definition signalHealthCheckDone :: "bool \<Rightarrow> world \<Rightarrow> world" where
  "signalHealthCheckDone received w =
     (if received \<and> 0 < healthChecks w then w\<lparr>healthChecks := healthChecks w - 1\<rparr> else w)"

definition switchToSystem :: "platform \<Rightarrow> bool \<Rightarrow> world \<Rightarrow> world" where
  "switchToSystem P received w = signalHealthCheckDone received (switchToSystemLocked P w)"

text \<open>
  A call of a backend either completes within \<open>clipboardTimeout\<close> or does not.  The
  system clipboard and the command-line tools are outside the repository: what a call
  to them does is given by the environment as a \<open>reply\<close>.  The in-memory clipboard
  always completes.
\<close>

datatype 'a reply = TimesOut | Completes 'a

text \<open>
  \<open>isClipboardResponsive\<close>: a test read of the primary backend (\<open>xclip.Read\<close>, on
  Android \<open>ReadClipboardCLI\<close>) under \<open>clipboardTimeout\<close>.  The result of the read is
  dropped: the function returns true when the read returns in time and false when the
  timeout comes first.
\<close>

definition isClipboardResponsive :: "(error + bytes) reply \<Rightarrow> bool" where
  "isClipboardResponsive testRead = (case testRead of Completes r \<Rightarrow> True | TimesOut \<Rightarrow> False)"

text \<open>
  One firing of the ticker in a goroutine of \<open>startHealthCheck\<close>: \<open>testRead\<close> is what
  the primary backend does with the test read of \<open>isClipboardResponsive()\<close>.  When that
  function returns true the goroutine calls \<open>switchToSystem\<close> and so leaves the loop;
  \<open>healthCheckTick\<close> goes up to the \<open>Unlock\<close> in \<open>switchToSystem\<close>, and
  \<open>healthCheckLeave\<close> is the rest: the offer on \<open>healthCheckDone\<close> and the return.
  Other steps can come between the two.  Without a goroutine in the loop, or without one
  leaving, nothing happens.
\<close>

definition healthCheckTick :: "platform \<Rightarrow> (error + bytes) reply \<Rightarrow> world \<Rightarrow> world" where
  "healthCheckTick P testRead w =
     (if healthChecks w = 0 then w
      else if isClipboardResponsive testRead then
        (switchToSystemLocked P w)\<lparr>healthChecks := healthChecks w - 1, leaving := leaving w + 1\<rparr>
      else w)"

definition healthCheckLeave :: "bool \<Rightarrow> world \<Rightarrow> world" where
  "healthCheckLeave received w =
     (if leaving w = 0 then w
      else (signalHealthCheckDone received w)\<lparr>leaving := leaving w - 1\<rparr>)"

definition backendCopy ::
  "clipboarder \<Rightarrow> error option reply \<Rightarrow> bytes \<Rightarrow> world \<Rightarrow> (error option \<times> world) reply" where
  "backendCopy c primary d w =
     (case c of
        inMemoryClipboard p \<Rightarrow> Completes (None, w\<lparr>inMemoryData := (inMemoryData w)(p := d)\<rparr>)
      | _ \<Rightarrow> (case primary of TimesOut \<Rightarrow> TimesOut | Completes err \<Rightarrow> Completes (err, w)))"

definition backendPaste ::
  "clipboarder \<Rightarrow> (error + bytes) reply \<Rightarrow> world \<Rightarrow> (error + bytes) reply" where
  "backendPaste c primary w =
     (case c of
        inMemoryClipboard p \<Rightarrow> Completes (Inr (inMemoryData w p))
      | _ \<Rightarrow> primary)"

text \<open>
  \<open>Copy\<close> and \<open>Paste\<close>.  In the branch for the fallback the backend is called directly,
  so the call returns when the backend does; in the other branch the \<open>select\<close> returns
  the backend's result when it arrives in time and otherwise switches to the fallback
  and uses \<open>state.fallback\<close>.  There \<open>state\<close> is not nil, because the active backend
  was not nil; the branch for a nil \<open>state\<close> is written out only to make the functions
  total (see \<open>state_after_timeout\<close> below).
\<close>

definition Copy :: "error option reply \<Rightarrow> bytes \<Rightarrow> world \<Rightarrow> (error option \<times> world) reply" where
  "Copy primary d w =
     (case getActiveClipboard w of
        None \<Rightarrow> Completes (Some ClipboardNotInitialized, w)
      | Some act \<Rightarrow>
          if isUsingFallback w then backendCopy act primary d w
          else
            (case backendCopy act primary d w of
               Completes r \<Rightarrow> Completes r
             | TimesOut \<Rightarrow>
                 (let w' = switchToFallback w
                  in case state w' of
                       None \<Rightarrow> Completes (Some ClipboardNotInitialized, w')
                     | Some s \<Rightarrow> backendCopy (inMemoryClipboard (fallback s)) primary d w')))"

definition Paste :: "(error + bytes) reply \<Rightarrow> world \<Rightarrow> ((error + bytes) \<times> world) reply" where
  "Paste primary w =
     (case getActiveClipboard w of
        None \<Rightarrow> Completes (Inl ClipboardNotInitialized, w)
      | Some act \<Rightarrow>
          if isUsingFallback w then
            (case backendPaste act primary w of
               TimesOut \<Rightarrow> TimesOut
             | Completes r \<Rightarrow> Completes (r, w))
          else
            (case backendPaste act primary w of
               Completes r \<Rightarrow> Completes (r, w)
             | TimesOut \<Rightarrow>
                 (let w' = switchToFallback w
                  in case state w' of
                       None \<Rightarrow> Completes (Inl ClipboardNotInitialized, w')
                     | Some s \<Rightarrow>
                        (case backendPaste (inMemoryClipboard (fallback s)) primary w' of
                           TimesOut \<Rightarrow> TimesOut
                         | Completes r \<Rightarrow> Completes (r, w')))))"

subsection \<open>Executions\<close>

text \<open>
  What can happen to a manager, one step at a time: the exported functions are called,
  the ticker of a health check fires, a health check that has switched back finishes,
  and \<open>LateTimeout\<close>, a \<open>Copy\<close> or \<open>Paste\<close> that found a primary backend active when
  it started reaches its timeout only now, after other steps, and calls
  \<open>switchToFallback\<close>.
\<close>

datatype event =
    CallInit
  | CallUseInMemoryClipboard
  | CallUseCliClipboard
  | CallCopy "error option reply" bytes
  | CallPaste "(error + bytes) reply"
  | LateTimeout
  | HealthTick "(error + bytes) reply"
  | HealthLeave bool

fun exec :: "platform \<Rightarrow> world \<Rightarrow> event \<Rightarrow> world" where
  "exec P w CallInit = Init P w"
| "exec P w CallUseInMemoryClipboard = UseInMemoryClipboard w"
| "exec P w CallUseCliClipboard = snd (UseCliClipboard w)"
| "exec P w (CallCopy primary d) =
     (case Copy primary d w of TimesOut \<Rightarrow> w | Completes r \<Rightarrow> snd r)"
| "exec P w (CallPaste primary) =
     (case Paste primary w of TimesOut \<Rightarrow> w | Completes r \<Rightarrow> snd r)"
| "exec P w LateTimeout = switchToFallback w"
| "exec P w (HealthTick testRead) = healthCheckTick P testRead w"
| "exec P w (HealthLeave received) = healthCheckLeave received w"

definition run :: "platform \<Rightarrow> event list \<Rightarrow> world" where
  "run P evs = foldl (exec P) world0 evs"

text \<open>The invariant of the data model: \<open>usingFallback\<close> iff \<open>active == fallback\<close>.\<close>

definition fallbackInvariant :: "world \<Rightarrow> bool" where
  "fallbackInvariant w =
     (case state w of
        None \<Rightarrow> True
      | Some s \<Rightarrow> usingFallback s = (active s = Some (inMemoryClipboard (fallback s))))"

text \<open>A desktop on which the native clipboard initialises.\<close>

definition desktop :: platform where
  "desktop = \<lparr>android = False, xclipInitOK = True, cliAvailable = True\<rparr>"

text \<open>
  At most one health check is in its loop, and only while the manager is using the
  fallback; none is before initialisation.
\<close>

definition atMostOneHealthCheck :: "world \<Rightarrow> bool" where
  "atMostOneHealthCheck w =
     (case state w of
        None \<Rightarrow> healthChecks w = 0
      | Some s \<Rightarrow> healthChecks w \<le> 1 \<and> (healthChecks w = 1 \<longrightarrow> usingFallback s))"

text \<open>
  The executions from \<open>w\<close> in which \<open>UseCliClipboard\<close> is never called while a health
  check is in its loop.
\<close>

fun overridesWhileIdle :: "platform \<Rightarrow> world \<Rightarrow> event list \<Rightarrow> bool" where
  "overridesWhileIdle P w [] = True"
| "overridesWhileIdle P w (e # evs) =
     ((e \<noteq> CallUseCliClipboard \<or> healthChecks w = 0) \<and> overridesWhileIdle P (exec P w e) evs)"

section \<open>Properties of the command-line clipboard tools\<close>

lemma initCLIClipboard_cases:
  "initCLIClipboard getenv hasCommand g = g \<or>
   (CLIClipboardAvailable (initCLIClipboard getenv hasCommand g) \<and>
    pasteCmdArgs (initCLIClipboard getenv hasCommand g) \<noteq> [] \<and>
    copyCmdArgs (initCLIClipboard getenv hasCommand g) \<noteq> [])"
  by (simp add: initCLIClipboard_def wlpasteArgs_def wlcopyArgs_def xclipPasteArgs_def
      xclipCopyArgs_def xselPasteArgs_def xselCopyArgs_def termuxPasteArgs_def termuxCopyArgs_def)

text \<open>
  Claim C10.  While \<open>CLIClipboardAvailable\<close> is false, \<open>ReadClipboardCLI\<close> and
  \<open>WriteClipboardCLI\<close> return the "no clipboard utilities available" error whatever the
  two argument slices hold (they are not read).  Starting from such variables,
  whenever \<open>initCLIClipboard\<close> leaves \<open>CLIClipboardAvailable\<close> true it has set both
  \<open>pasteCmdArgs\<close> and \<open>copyCmdArgs\<close> to non-empty lists, so neither function panics on
  the index \<open>[0]\<close> afterwards.
\<close>

theorem cli_args_never_indexed_when_empty:
  assumes "\<not> CLIClipboardAvailable g"
  shows "ReadClipboardCLI cmdOutput (g\<lparr>pasteCmdArgs := ps, copyCmdArgs := cs\<rparr>)
           = Returns (Inl clipboardUnavailableErr) \<and>
         WriteClipboardCLI cmdPipe (g\<lparr>pasteCmdArgs := ps, copyCmdArgs := cs\<rparr>) data
           = Returns (Some clipboardUnavailableErr) \<and>
         (CLIClipboardAvailable (initCLIClipboard getenv hasCommand g) \<longrightarrow>
            pasteCmdArgs (initCLIClipboard getenv hasCommand g) \<noteq> [] \<and>
            copyCmdArgs (initCLIClipboard getenv hasCommand g) \<noteq> []) \<and>
         ReadClipboardCLI cmdOutput (initCLIClipboard getenv hasCommand g) \<noteq> Panics \<and>
         WriteClipboardCLI cmdPipe (initCLIClipboard getenv hasCommand g) data \<noteq> Panics"
proof -
  let ?g' = "initCLIClipboard getenv hasCommand g"
  have r: "ReadClipboardCLI cmdOutput (g\<lparr>pasteCmdArgs := ps, copyCmdArgs := cs\<rparr>)
           = Returns (Inl clipboardUnavailableErr)"
    using assms by (simp add: ReadClipboardCLI_def)
  have w: "WriteClipboardCLI cmdPipe (g\<lparr>pasteCmdArgs := ps, copyCmdArgs := cs\<rparr>) data
           = Returns (Some clipboardUnavailableErr)"
    using assms by (simp add: WriteClipboardCLI_def)
  have nonempty: "CLIClipboardAvailable ?g' \<Longrightarrow> pasteCmdArgs ?g' \<noteq> [] \<and> copyCmdArgs ?g' \<noteq> []"
    using initCLIClipboard_cases [of getenv hasCommand g] assms by auto
  have rp: "ReadClipboardCLI cmdOutput ?g' \<noteq> Panics"
    using nonempty by (cases "pasteCmdArgs ?g'") (auto simp: ReadClipboardCLI_def)
  have wp: "WriteClipboardCLI cmdPipe ?g' data \<noteq> Panics"
    using nonempty by (cases "copyCmdArgs ?g'") (auto simp: WriteClipboardCLI_def)
  from r w nonempty rp wp show ?thesis by blast
qed

theorem cli_args_never_indexed_when_empty_witness:
  "\<not> CLIClipboardAvailable cliVars0 \<and>
   ReadClipboardCLI (\<lambda>name args. Inr name) (cliVars0\<lparr>pasteCmdArgs := [], copyCmdArgs := []\<rparr>)
     = Returns (Inl clipboardUnavailableErr) \<and>
   WriteClipboardCLI (\<lambda>name args d. None) (cliVars0\<lparr>pasteCmdArgs := [], copyCmdArgs := []\<rparr>) ''x''
     = Returns (Some clipboardUnavailableErr) \<and>
   CLIClipboardAvailable (initCLIClipboard (\<lambda>v. []) (\<lambda>c. c = ''xsel'') cliVars0) \<and>
   pasteCmdArgs (initCLIClipboard (\<lambda>v. []) (\<lambda>c. c = ''xsel'') cliVars0) \<noteq> [] \<and>
   copyCmdArgs (initCLIClipboard (\<lambda>v. []) (\<lambda>c. c = ''xsel'') cliVars0) \<noteq> [] \<and>
   ReadClipboardCLI (\<lambda>name args. Inr name) (initCLIClipboard (\<lambda>v. []) (\<lambda>c. c = ''xsel'') cliVars0)
     \<noteq> Panics \<and>
   WriteClipboardCLI (\<lambda>name args d. None) (initCLIClipboard (\<lambda>v. []) (\<lambda>c. c = ''xsel'') cliVars0) ''x''
     \<noteq> Panics"
proof -
  have h: "\<not> CLIClipboardAvailable cliVars0"
    by (simp add: cliVars0_def)
  have a: "CLIClipboardAvailable (initCLIClipboard (\<lambda>v. []) (\<lambda>c. c = ''xsel'') cliVars0)"
    by (simp add: initCLIClipboard_def cliVars0_def cliXsel_def cliXclip_def cliWlcopy_def)
  show ?thesis
    using h a
      cli_args_never_indexed_when_empty [OF h, where cmdOutput = "\<lambda>name args. Inr name"
        and ps = "[]" and cs = "[]" and cmdPipe = "\<lambda>name args d. None" and data = "''x''"
        and getenv = "\<lambda>v. []" and hasCommand = "\<lambda>c. c = ''xsel''"]
    by simp
qed

section \<open>Properties of the authentication middleware\<close>

text \<open>The body of \<open>authMiddleware\<close> as one chain of decisions.\<close>

lemma authMiddleware_stages:
  "authMiddleware L authorizedKeys r =
     (if Get (Header r) HeaderFingerprint = [] \<or> Get (Header r) HeaderSignature = [] then
        http_Error ''Missing authentication headers'' 401
      else case authorizedKeys (Get (Header r) HeaderFingerprint) of
        None \<Rightarrow> http_Error ''Unknown public key'' 401
      | Some pubKey \<Rightarrow>
          if readFails (Body r) then http_Error ''Failed to read request body'' 500
          else case DecodeString L (Get (Header r) HeaderSignature) of
            None \<Rightarrow> http_Error ''Invalid signature encoding'' 400
          | Some signatureBytes \<Rightarrow>
             (case Unmarshal L signatureBytes of
                None \<Rightarrow> http_Error ''Invalid SSH signature format'' 400
              | Some sshSig \<Rightarrow>
                  if Verify L pubKey (Sum256 L (pending (Body r))) sshSig
                  then next_ServeHTTP (r\<lparr>Body := NewBuffer (pending (Body r))\<rparr>)
                  else http_Error ''Signature verification failed'' 401))"
  by (simp add: authMiddleware_def Let_def ReadAll_def StatusUnauthorized_def
      StatusBadRequest_def StatusInternalServerError_def split: option.splits)

lemma ReadAll_ok: "ReadAll rd = (Inr body, drained) \<Longrightarrow> \<not> readFails rd \<and> pending rd = body"
  by (auto simp: ReadAll_def split: if_splits)

text \<open>
  Claim C3.  The middleware answers by \<open>http.Error\<close>, and so does not call the wrapped
  handler, with status 401 when the fingerprint header or the signature header is
  absent (or empty); with 401 and the message "Unknown public key" when both are
  present and the fingerprint is not in the trust store, whatever the signature header
  holds; with 400 when the fingerprint is known, the body was read, and the signature
  header fails base64 decoding or the decoded bytes fail SSH unmarshalling; and with 401
  when the decoded signature does not verify over the SHA-256 digest of the body.  The
  wrapped handler is called only when none of these applies.
\<close>

theorem authMiddleware_rejections:
  "(Get (Header r) HeaderFingerprint = [] \<or> Get (Header r) HeaderSignature = [] \<longrightarrow>
      authMiddleware L authorizedKeys r = http_Error ''Missing authentication headers'' 401) \<and>
   (Get (Header r) HeaderFingerprint \<noteq> [] \<and> Get (Header r) HeaderSignature \<noteq> [] \<and>
    authorizedKeys (Get (Header r) HeaderFingerprint) = None \<longrightarrow>
      authMiddleware L authorizedKeys r = http_Error ''Unknown public key'' 401) \<and>
   (Get (Header r) HeaderFingerprint \<noteq> [] \<and> Get (Header r) HeaderSignature \<noteq> [] \<and>
    authorizedKeys (Get (Header r) HeaderFingerprint) = Some pubKey \<and>
    ReadAll (Body r) = (Inr body, drained) \<and>
    DecodeString L (Get (Header r) HeaderSignature) = None \<longrightarrow>
      authMiddleware L authorizedKeys r = http_Error ''Invalid signature encoding'' 400) \<and>
   (Get (Header r) HeaderFingerprint \<noteq> [] \<and> Get (Header r) HeaderSignature \<noteq> [] \<and>
    authorizedKeys (Get (Header r) HeaderFingerprint) = Some pubKey \<and>
    ReadAll (Body r) = (Inr body, drained) \<and>
    DecodeString L (Get (Header r) HeaderSignature) = Some signatureBytes \<and>
    Unmarshal L signatureBytes = None \<longrightarrow>
      authMiddleware L authorizedKeys r = http_Error ''Invalid SSH signature format'' 400) \<and>
   (Get (Header r) HeaderFingerprint \<noteq> [] \<and> Get (Header r) HeaderSignature \<noteq> [] \<and>
    authorizedKeys (Get (Header r) HeaderFingerprint) = Some pubKey \<and>
    ReadAll (Body r) = (Inr body, drained) \<and>
    DecodeString L (Get (Header r) HeaderSignature) = Some signatureBytes \<and>
    Unmarshal L signatureBytes = Some sshSig \<and>
    \<not> Verify L pubKey (Sum256 L body) sshSig \<longrightarrow>
      authMiddleware L authorizedKeys r = http_Error ''Signature verification failed'' 401) \<and>
   (authMiddleware L authorizedKeys r = next_ServeHTTP r' \<longrightarrow>
      Get (Header r) HeaderFingerprint \<noteq> [] \<and> Get (Header r) HeaderSignature \<noteq> [] \<and>
      (\<exists>pk sb sg. authorizedKeys (Get (Header r) HeaderFingerprint) = Some pk \<and>
         DecodeString L (Get (Header r) HeaderSignature) = Some sb \<and>
         Unmarshal L sb = Some sg \<and>
         Verify L pk (Sum256 L (pending (Body r))) sg))"
proof -
  have missing: "Get (Header r) HeaderFingerprint = [] \<or> Get (Header r) HeaderSignature = [] \<Longrightarrow>
      authMiddleware L authorizedKeys r = http_Error ''Missing authentication headers'' 401"
    by (simp add: authMiddleware_stages)
  have unknown: "Get (Header r) HeaderFingerprint \<noteq> [] \<Longrightarrow> Get (Header r) HeaderSignature \<noteq> [] \<Longrightarrow>
      authorizedKeys (Get (Header r) HeaderFingerprint) = None \<Longrightarrow>
      authMiddleware L authorizedKeys r = http_Error ''Unknown public key'' 401"
    by (simp add: authMiddleware_stages)
  have encoding: "Get (Header r) HeaderFingerprint \<noteq> [] \<Longrightarrow> Get (Header r) HeaderSignature \<noteq> [] \<Longrightarrow>
      authorizedKeys (Get (Header r) HeaderFingerprint) = Some pubKey \<Longrightarrow>
      ReadAll (Body r) = (Inr body, drained) \<Longrightarrow>
      DecodeString L (Get (Header r) HeaderSignature) = None \<Longrightarrow>
      authMiddleware L authorizedKeys r = http_Error ''Invalid signature encoding'' 400"
    by (frule ReadAll_ok) (simp add: authMiddleware_stages)
  have format: "Get (Header r) HeaderFingerprint \<noteq> [] \<Longrightarrow> Get (Header r) HeaderSignature \<noteq> [] \<Longrightarrow>
      authorizedKeys (Get (Header r) HeaderFingerprint) = Some pubKey \<Longrightarrow>
      ReadAll (Body r) = (Inr body, drained) \<Longrightarrow>
      DecodeString L (Get (Header r) HeaderSignature) = Some signatureBytes \<Longrightarrow>
      Unmarshal L signatureBytes = None \<Longrightarrow>
      authMiddleware L authorizedKeys r = http_Error ''Invalid SSH signature format'' 400"
    by (frule ReadAll_ok) (simp add: authMiddleware_stages)
  have verify: "Get (Header r) HeaderFingerprint \<noteq> [] \<Longrightarrow> Get (Header r) HeaderSignature \<noteq> [] \<Longrightarrow>
      authorizedKeys (Get (Header r) HeaderFingerprint) = Some pubKey \<Longrightarrow>
      ReadAll (Body r) = (Inr body, drained) \<Longrightarrow>
      DecodeString L (Get (Header r) HeaderSignature) = Some signatureBytes \<Longrightarrow>
      Unmarshal L signatureBytes = Some sshSig \<Longrightarrow>
      \<not> Verify L pubKey (Sum256 L body) sshSig \<Longrightarrow>
      authMiddleware L authorizedKeys r = http_Error ''Signature verification failed'' 401"
    by (frule ReadAll_ok) (simp add: authMiddleware_stages)
  have served: "authMiddleware L authorizedKeys r = next_ServeHTTP r' \<Longrightarrow>
      Get (Header r) HeaderFingerprint \<noteq> [] \<and> Get (Header r) HeaderSignature \<noteq> [] \<and>
      (\<exists>pk sb sg. authorizedKeys (Get (Header r) HeaderFingerprint) = Some pk \<and>
         DecodeString L (Get (Header r) HeaderSignature) = Some sb \<and>
         Unmarshal L sb = Some sg \<and>
         Verify L pk (Sum256 L (pending (Body r))) sg)"
    by (simp add: authMiddleware_stages split: if_splits option.splits)
  from missing unknown encoding format verify served show ?thesis
    by blast
qed

lemmas demo_simps =
  Get_def HeaderFingerprint_def HeaderSignature_def demoLib_def demoKeys_def demoRequest_def
  ReadAll_def NewBuffer_def

theorem authMiddleware_rejections_witness:
  "authMiddleware demoLib demoKeys
     \<lparr>Method = ''GET'', URL = ''https://localhost:2850/paste'', Header = Map.empty, Body = NewBuffer []\<rparr>
     = http_Error ''Missing authentication headers'' 401 \<and>
   authMiddleware demoLib demoKeys (demoRequest ''SHA256:Z'' ''bZdata'' ''data'')
     = http_Error ''Unknown public key'' 401 \<and>
   authMiddleware demoLib demoKeys (demoRequest ''SHA256:K'' ''?'' ''data'')
     = http_Error ''Invalid signature encoding'' 400 \<and>
   authMiddleware demoLib demoKeys (demoRequest ''SHA256:K'' ''b'' ''data'')
     = http_Error ''Invalid SSH signature format'' 400 \<and>
   authMiddleware demoLib demoKeys (demoRequest ''SHA256:K'' ''bKdata'' ''dat4'')
     = http_Error ''Signature verification failed'' 401 \<and>
   authMiddleware demoLib demoKeys (demoRequest ''SHA256:K'' ''bKdata'' ''data'')
     = next_ServeHTTP (demoRequest ''SHA256:K'' ''bKdata'' ''data'') \<and>
   Verify demoLib (CHR ''K'') (Sum256 demoLib ''data'') ''Kdata''"
proof -
  let ?r0 = "\<lparr>Method = ''GET'', URL = ''https://localhost:2850/paste'', Header = Map.empty,
              Body = NewBuffer []\<rparr>"
  have missing: "authMiddleware demoLib demoKeys ?r0
      = http_Error ''Missing authentication headers'' 401"
    using authMiddleware_rejections [where r = ?r0 and L = demoLib and authorizedKeys = demoKeys]
    by (simp add: demo_simps)
  have unknown: "authMiddleware demoLib demoKeys (demoRequest ''SHA256:Z'' ''bZdata'' ''data'')
      = http_Error ''Unknown public key'' 401"
    using authMiddleware_rejections [where r = "demoRequest ''SHA256:Z'' ''bZdata'' ''data''"
        and L = demoLib and authorizedKeys = demoKeys]
    by (simp add: demo_simps)
  have encoding: "authMiddleware demoLib demoKeys (demoRequest ''SHA256:K'' ''?'' ''data'')
      = http_Error ''Invalid signature encoding'' 400"
    using authMiddleware_rejections [where r = "demoRequest ''SHA256:K'' ''?'' ''data''"
        and L = demoLib and authorizedKeys = demoKeys and pubKey = "CHR ''K''"
        and body = "''data''" and drained = "NewBuffer []"]
    by (simp add: demo_simps)
  have format: "authMiddleware demoLib demoKeys (demoRequest ''SHA256:K'' ''b'' ''data'')
      = http_Error ''Invalid SSH signature format'' 400"
    using authMiddleware_rejections [where r = "demoRequest ''SHA256:K'' ''b'' ''data''"
        and L = demoLib and authorizedKeys = demoKeys and pubKey = "CHR ''K''"
        and body = "''data''" and drained = "NewBuffer []" and signatureBytes = "[]"]
    by (simp add: demo_simps)
  have verify: "authMiddleware demoLib demoKeys (demoRequest ''SHA256:K'' ''bKdata'' ''dat4'')
      = http_Error ''Signature verification failed'' 401"
    using authMiddleware_rejections [where r = "demoRequest ''SHA256:K'' ''bKdata'' ''dat4''"
        and L = demoLib and authorizedKeys = demoKeys and pubKey = "CHR ''K''"
        and body = "''dat4''" and drained = "NewBuffer []" and signatureBytes = "''Kdata''"
        and sshSig = "''Kdata''"]
    by (simp add: demo_simps)
  have served: "authMiddleware demoLib demoKeys (demoRequest ''SHA256:K'' ''bKdata'' ''data'')
      = next_ServeHTTP (demoRequest ''SHA256:K'' ''bKdata'' ''data'')"
    by (simp add: authMiddleware_stages demo_simps)
  have checked: "Verify demoLib (CHR ''K'') (Sum256 demoLib ''data'') ''Kdata''"
    using served
      authMiddleware_rejections [where r = "demoRequest ''SHA256:K'' ''bKdata'' ''data''"
        and L = demoLib and authorizedKeys = demoKeys
        and r' = "demoRequest ''SHA256:K'' ''bKdata'' ''data''"]
    by (simp add: demo_simps)
  from missing unknown encoding format verify served checked show ?thesis
    by blast
qed

text \<open>
  The middleware on stream objects as one chain of decisions, and its link to
  \<open>authMiddleware\<close>: the two give the same answer, the first for a request that refers
  to its body, the second for the request that holds it.
\<close>

lemma authMiddlewareOnStreams_stages:
  "authMiddlewareOnStreams L authorizedKeys \<sigma> r =
     (if Get (Header r) HeaderFingerprint = [] \<or> Get (Header r) HeaderSignature = [] then
        (http_Error ''Missing authentication headers'' 401, \<sigma>)
      else case authorizedKeys (Get (Header r) HeaderFingerprint) of
        None \<Rightarrow> (http_Error ''Unknown public key'' 401, \<sigma>)
      | Some pubKey \<Rightarrow>
          if readFails (object \<sigma> (Body r)) then
            (http_Error ''Failed to read request body'' 500, snd (ReadAllAt \<sigma> (Body r)))
          else case DecodeString L (Get (Header r) HeaderSignature) of
            None \<Rightarrow> (http_Error ''Invalid signature encoding'' 400,
                      snd (NewBufferAt (snd (ReadAllAt \<sigma> (Body r))) (pending (object \<sigma> (Body r)))))
          | Some signatureBytes \<Rightarrow>
             (case Unmarshal L signatureBytes of
                None \<Rightarrow> (http_Error ''Invalid SSH signature format'' 400,
                          snd (NewBufferAt (snd (ReadAllAt \<sigma> (Body r))) (pending (object \<sigma> (Body r)))))
              | Some sshSig \<Rightarrow>
                  if Verify L pubKey (Sum256 L (pending (object \<sigma> (Body r)))) sshSig
                  then (next_ServeHTTP (r\<lparr>Body := allocated \<sigma>\<rparr>),
                        snd (NewBufferAt (snd (ReadAllAt \<sigma> (Body r))) (pending (object \<sigma> (Body r)))))
                  else (http_Error ''Signature verification failed'' 401,
                        snd (NewBufferAt (snd (ReadAllAt \<sigma> (Body r))) (pending (object \<sigma> (Body r)))))))"
  by (simp add: authMiddlewareOnStreams_def Let_def ReadAllAt_def ReadAll_def NewBufferAt_def
      StatusUnauthorized_def StatusBadRequest_def StatusInternalServerError_def
      split: option.splits)

lemma authMiddlewareOnStreams_answer:
  "fst (authMiddlewareOnStreams L authorizedKeys \<sigma> r) =
     (case authMiddleware L authorizedKeys (contents \<sigma> r) of
        http_Error message status \<Rightarrow> http_Error message status
      | next_ServeHTTP q \<Rightarrow> next_ServeHTTP (r\<lparr>Body := allocated \<sigma>\<rparr>))"
  by (simp add: authMiddlewareOnStreams_stages authMiddleware_stages contents_def
      split: option.splits)

lemma authMiddlewareOnStreams_contents:
  assumes "authMiddlewareOnStreams L authorizedKeys \<sigma> r = (next_ServeHTTP r', \<sigma>')"
  shows "authMiddleware L authorizedKeys (contents \<sigma> r) = next_ServeHTTP (contents \<sigma>' r')"
  using assms
  by (auto simp: authMiddlewareOnStreams_stages authMiddleware_stages contents_def
      ReadAllAt_def ReadAll_def NewBufferAt_def split: option.splits if_splits)

lemma demo_served_on_streams:
  "authMiddlewareOnStreams demoLib demoKeys (demoStreams ''data'')
       (demoRequestAt ''SHA256:K'' ''bKdata'' 0)
     = (next_ServeHTTP (demoRequestAt ''SHA256:K'' ''bKdata'' 1),
        \<lparr>object = (\<lambda>a. NewBuffer [])(0 := NewBuffer [], 1 := NewBuffer ''data''), allocated = 2\<rparr>)"
  by (simp add: authMiddlewareOnStreams_stages demo_simps demoStreams_def demoRequestAt_def
      ReadAllAt_def NewBufferAt_def)

text \<open>
  Claim C9.  When the middleware calls the wrapped handler, it has read the stream the
  request came with to its end: that stream object is left drained.  The signature it
  verified is a signature over the SHA-256 digest of exactly the bytes it read.  The
  request it passes on refers to a new stream object, a fresh buffer over exactly those
  bytes, so the handler reads the bytes the request arrived with; the HTTP verb, the URL,
  the headers and every other field of the request are those of the original request,
  and no other stream is touched.
\<close>

theorem authMiddleware_body_restored:
  assumes served: "authMiddlewareOnStreams L authorizedKeys \<sigma> r = (next_ServeHTTP r', \<sigma>')"
    and live: "Body r < allocated \<sigma>"
  shows "object \<sigma>' (Body r) = snd (ReadAll (object \<sigma> (Body r))) \<and>
         pending (object \<sigma>' (Body r)) = [] \<and>
         (\<exists>pk sb sg. authorizedKeys (Get (Header r) HeaderFingerprint) = Some pk \<and>
            DecodeString L (Get (Header r) HeaderSignature) = Some sb \<and>
            Unmarshal L sb = Some sg \<and>
            Verify L pk (Sum256 L (pending (object \<sigma> (Body r)))) sg) \<and>
         Body r' = allocated \<sigma> \<and> Body r' \<noteq> Body r \<and> allocated \<sigma>' = allocated \<sigma> + 1 \<and>
         object \<sigma>' (Body r') = NewBuffer (pending (object \<sigma> (Body r))) \<and>
         fst (ReadAllAt \<sigma>' (Body r')) = Inr (pending (object \<sigma> (Body r))) \<and>
         (\<forall>a. a \<noteq> Body r \<and> a \<noteq> Body r' \<longrightarrow> object \<sigma>' a = object \<sigma> a) \<and>
         r' = r\<lparr>Body := Body r'\<rparr> \<and>
         Method r' = Method r \<and> URL r' = URL r \<and> Header r' = Header r \<and>
         request.more r' = request.more r"
proof -
  let ?body = "pending (object \<sigma> (Body r))"
  from served have ok: "\<not> readFails (object \<sigma> (Body r))"
    and r': "r' = r\<lparr>Body := allocated \<sigma>\<rparr>"
    and \<sigma>': "\<sigma>' = snd (NewBufferAt (snd (ReadAllAt \<sigma> (Body r))) ?body)"
    and checked: "\<exists>pk sb sg. authorizedKeys (Get (Header r) HeaderFingerprint) = Some pk \<and>
            DecodeString L (Get (Header r) HeaderSignature) = Some sb \<and>
            Unmarshal L sb = Some sg \<and> Verify L pk (Sum256 L ?body) sg"
    by (auto simp: authMiddlewareOnStreams_stages split: if_splits option.splits)
  have store: "\<sigma>' = \<sigma>\<lparr>object := (object \<sigma>)(Body r := snd (ReadAll (object \<sigma> (Body r))),
                                          allocated \<sigma> := NewBuffer ?body),
                     allocated := allocated \<sigma> + 1\<rparr>"
    by (simp add: \<sigma>' ReadAllAt_def NewBufferAt_def split: prod.splits)
  have original: "object \<sigma>' (Body r) = snd (ReadAll (object \<sigma> (Body r)))"
    using live by (simp add: store)
  have drained: "pending (object \<sigma>' (Body r)) = []"
    by (simp add: original ReadAll_def)
  have fresh: "Body r' = allocated \<sigma>" "Body r' \<noteq> Body r" "allocated \<sigma>' = allocated \<sigma> + 1"
    using live by (simp_all add: r' store)
  have buffer: "object \<sigma>' (Body r') = NewBuffer ?body"
    by (simp add: r' store)
  have reread: "fst (ReadAllAt \<sigma>' (Body r')) = Inr ?body"
    by (simp add: ReadAllAt_def buffer ReadAll_def NewBuffer_def split: prod.splits)
  have others: "\<forall>a. a \<noteq> Body r \<and> a \<noteq> Body r' \<longrightarrow> object \<sigma>' a = object \<sigma> a"
    by (simp add: r' store)
  have fields: "r' = r\<lparr>Body := Body r'\<rparr>" "Method r' = Method r" "URL r' = URL r"
    "Header r' = Header r" "request.more r' = request.more r"
    by (simp_all add: r')
  from original drained checked fresh buffer reread others fields show ?thesis
    by blast
qed

theorem authMiddleware_body_restored_witness:
  "authMiddlewareOnStreams demoLib demoKeys (demoStreams ''data'')
       (demoRequestAt ''SHA256:K'' ''bKdata'' 0)
     = (next_ServeHTTP (demoRequestAt ''SHA256:K'' ''bKdata'' 1),
        \<lparr>object = (\<lambda>a. NewBuffer [])(0 := NewBuffer [], 1 := NewBuffer ''data''), allocated = 2\<rparr>) \<and>
   Body (demoRequestAt ''SHA256:K'' ''bKdata'' 0) < allocated (demoStreams ''data'') \<and>
   pending (object (demoStreams ''data'') 0) = ''data'' \<and>
   pending (object \<lparr>object = (\<lambda>a. NewBuffer [])(0 := NewBuffer [], 1 := NewBuffer ''data''),
                     allocated = 2\<rparr> 0) = [] \<and>
   fst (ReadAllAt \<lparr>object = (\<lambda>a. NewBuffer [])(0 := NewBuffer [], 1 := NewBuffer ''data''),
                    allocated = 2\<rparr> 1) = Inr ''data'' \<and>
   Verify demoLib (CHR ''K'') (Sum256 demoLib ''data'') ''Kdata''"
proof -
  let ?r = "demoRequestAt ''SHA256:K'' ''bKdata'' 0"
  let ?r' = "demoRequestAt ''SHA256:K'' ''bKdata'' 1"
  let ?\<sigma>' = "\<lparr>object = (\<lambda>a. NewBuffer [])(0 := NewBuffer [], 1 := NewBuffer ''data''),
              allocated = 2\<rparr>"
  have live: "Body ?r < allocated (demoStreams ''data'')"
    by (simp add: demoRequestAt_def demoStreams_def)
  have body: "pending (object (demoStreams ''data'') (Body ?r)) = ''data''"
    by (simp add: demoRequestAt_def demoStreams_def NewBuffer_def)
  have at: "Body ?r = 0" "Body ?r' = 1"
    by (simp_all add: demoRequestAt_def)
  note inst = authMiddleware_body_restored [OF demo_served_on_streams live]
  have drained: "pending (object ?\<sigma>' (Body ?r)) = []"
    using inst by (elim conjE)
  have reread: "fst (ReadAllAt ?\<sigma>' (Body ?r')) = Inr (pending (object (demoStreams ''data'') (Body ?r)))"
    using inst by (elim conjE)
  have checked: "Verify demoLib (CHR ''K'') (Sum256 demoLib ''data'') ''Kdata''"
    using inst by (simp add: body demo_simps demoRequestAt_def)
  from demo_served_on_streams live body drained reread checked show ?thesis
    by (simp only: at)
qed


text \<open>
  Claim C1.  Let the client load the signing key \<open>K\<close> and sign the SHA-256 digest of the
  payload \<open>P\<close>, and let the trust store map the fingerprint of \<open>K\<close>'s public key to that
  key.  The library is assumed to behave as documented on the values involved: the
  fingerprint and the encoded signature are not empty, base64 decoding and SSH
  unmarshalling invert encoding and marshalling, and the signature verifies over the
  digest it was made for.  Then \<open>doHTTPSRequest\<close> hands exactly one request to the
  network, with body \<open>P\<close>, the fingerprint header naming \<open>K\<close> and the signature header
  holding the encoded marshalled signature, and the middleware passes that request to the
  wrapped handler.  For the same headers and any received body \<open>B\<close>, the middleware's decision
  is the verification of the signature over SHA-256 of \<open>B\<close>, the body received.  So,
  when the signature verifies no digest but the one it was made for, every body whose
  digest differs from that of \<open>P\<close> is rejected with 401.  (The request is taken to
  arrive at the server as the client built it.)
\<close>

theorem signed_request_accepted:
  assumes signer: "getSigner L H = Inr K"
    and signed: "Sign L K (rand H) (Sum256 L P) = Some sg"
    and newreq: "NewRequestOK H httpMethod url"
    and trusted: "authorizedKeys (FingerprintSHA256 L (PublicKey L K)) = Some (PublicKey L K)"
    and fp_nonempty: "FingerprintSHA256 L (PublicKey L K) \<noteq> []"
    and enc_nonempty: "EncodeToString L (Marshal L sg) \<noteq> []"
    and base64: "DecodeString L (EncodeToString L (Marshal L sg)) = Some (Marshal L sg)"
    and wire: "Unmarshal L (Marshal L sg) = Some sg"
    and correct: "Verify L (PublicKey L K) (Sum256 L P) sg"
    and binding: "\<forall>d. Verify L (PublicKey L K) d sg \<longrightarrow> d = Sum256 L P"
  shows "\<exists>req. snd (doHTTPSRequest L H httpMethod url P) = [req] \<and>
           fst (ReadAll (Body req)) = Inr P \<and>
           Get (Header req) HeaderFingerprint = FingerprintSHA256 L (PublicKey L K) \<and>
           Get (Header req) HeaderSignature = EncodeToString L (Marshal L sg) \<and>
           authMiddleware L authorizedKeys req = next_ServeHTTP req \<and>
           (\<forall>B. authMiddleware L authorizedKeys (req\<lparr>Body := NewBuffer B\<rparr>) =
                 (if Verify L (PublicKey L K) (Sum256 L B) sg
                  then next_ServeHTTP (req\<lparr>Body := NewBuffer B\<rparr>)
                  else http_Error ''Signature verification failed'' 401)) \<and>
           (\<forall>B. Sum256 L B \<noteq> Sum256 L P \<longrightarrow>
                 authMiddleware L authorizedKeys (req\<lparr>Body := NewBuffer B\<rparr>) =
                   http_Error ''Signature verification failed'' 401)"
proof -
  define req where "req =
     \<lparr>Method = httpMethod, URL = url,
      Header = [HeaderFingerprint \<mapsto> FingerprintSHA256 L (PublicKey L K),
                HeaderSignature \<mapsto> EncodeToString L (Marshal L sg)],
      Body = NewBuffer P\<rparr>"
  have sent: "snd (doHTTPSRequest L H httpMethod url P) = [req]"
    using signer signed newreq
    by (simp add: doHTTPSRequest_def Let_def req_def split: sum.splits prod.splits)
  have hdr: "Get (Header req) HeaderFingerprint = FingerprintSHA256 L (PublicKey L K)"
    "Get (Header req) HeaderSignature = EncodeToString L (Marshal L sg)"
    by (simp_all add: req_def Get_def HeaderFingerprint_def HeaderSignature_def)
  have body: "fst (ReadAll (Body req)) = Inr P"
    by (simp add: req_def ReadAll_def NewBuffer_def)
  have decision: "authMiddleware L authorizedKeys (req\<lparr>Body := NewBuffer B\<rparr>) =
                 (if Verify L (PublicKey L K) (Sum256 L B) sg
                  then next_ServeHTTP (req\<lparr>Body := NewBuffer B\<rparr>)
                  else http_Error ''Signature verification failed'' 401)" for B
    using hdr trusted fp_nonempty enc_nonempty base64 wire
    by (simp add: authMiddleware_stages NewBuffer_def)
  have same: "req\<lparr>Body := NewBuffer P\<rparr> = req"
    by (simp add: req_def)
  have accepted: "authMiddleware L authorizedKeys req = next_ServeHTTP req"
    using decision [of P] correct by (simp add: same)
  have tampered: "Sum256 L B \<noteq> Sum256 L P \<Longrightarrow>
      authMiddleware L authorizedKeys (req\<lparr>Body := NewBuffer B\<rparr>) =
        http_Error ''Signature verification failed'' 401" for B
    using decision [of B] binding by auto
  from sent body hdr accepted decision tampered show ?thesis
    by blast
qed

lemma demo_getSigner: "getSigner demoLib demoHost = Inr (CHR ''K'')"
  by (simp add: getSigner_def findPrivateKey_def demoHost_def demoLib_def ProgramName_def)

lemma demo_doHTTPSRequest:
  "doHTTPSRequest demoLib demoHost ''POST'' ''https://localhost:2850/copy'' ''data'' =
     (Inr ''ok'', [demoRequest ''SHA256:K'' ''bKdata'' ''data''])"
  by (simp add: doHTTPSRequest_def demo_getSigner Let_def)
    (simp add: demoHost_def demoLib_def demoRequest_def ReadAll_def NewBuffer_def StatusOK_def)

theorem signed_request_accepted_witness:
  "getSigner demoLib demoHost = Inr (CHR ''K'') \<and>
   snd (doHTTPSRequest demoLib demoHost ''POST'' ''https://localhost:2850/copy'' ''data'')
     = [demoRequest ''SHA256:K'' ''bKdata'' ''data''] \<and>
   authMiddleware demoLib demoKeys (demoRequest ''SHA256:K'' ''bKdata'' ''data'')
     = next_ServeHTTP (demoRequest ''SHA256:K'' ''bKdata'' ''data'') \<and>
   Sum256 demoLib ''dat4'' \<noteq> Sum256 demoLib ''data'' \<and>
   authMiddleware demoLib demoKeys (demoRequest ''SHA256:K'' ''bKdata'' ''dat4'')
     = http_Error ''Signature verification failed'' 401"
proof -
  have signed: "Sign demoLib (CHR ''K'') (rand demoHost) (Sum256 demoLib ''data'') = Some ''Kdata''"
    by (simp add: demoLib_def)
  have newreq: "NewRequestOK demoHost ''POST'' ''https://localhost:2850/copy''"
    by (simp add: demoHost_def)
  have trusted: "demoKeys (FingerprintSHA256 demoLib (PublicKey demoLib (CHR ''K'')))
      = Some (PublicKey demoLib (CHR ''K''))"
    by (simp add: demoLib_def demoKeys_def)
  have fp: "FingerprintSHA256 demoLib (PublicKey demoLib (CHR ''K'')) \<noteq> []"
    by (simp add: demoLib_def)
  have enc: "EncodeToString demoLib (Marshal demoLib ''Kdata'') \<noteq> []"
    by (simp add: demoLib_def)
  have base64: "DecodeString demoLib (EncodeToString demoLib (Marshal demoLib ''Kdata''))
      = Some (Marshal demoLib ''Kdata'')"
    by (simp add: demoLib_def)
  have wire: "Unmarshal demoLib (Marshal demoLib ''Kdata'') = Some ''Kdata''"
    by (simp add: demoLib_def)
  have correct: "Verify demoLib (PublicKey demoLib (CHR ''K'')) (Sum256 demoLib ''data'') ''Kdata''"
    by (simp add: demoLib_def)
  have binding: "\<forall>d. Verify demoLib (PublicKey demoLib (CHR ''K'')) d ''Kdata''
      \<longrightarrow> d = Sum256 demoLib ''data''"
    by (simp add: demoLib_def)
  have differs: "Sum256 demoLib ''dat4'' \<noteq> Sum256 demoLib ''data''"
    by (simp add: demoLib_def)
  from signed_request_accepted [where L = demoLib and H = demoHost and K = "CHR ''K''"
      and P = "''data''" and sg = "''Kdata''" and authorizedKeys = demoKeys
      and httpMethod = "''POST''" and url = "''https://localhost:2850/copy''",
      OF demo_getSigner signed newreq trusted fp enc base64 wire correct binding]
  obtain req where
    sent: "snd (doHTTPSRequest demoLib demoHost ''POST'' ''https://localhost:2850/copy'' ''data'')
             = [req]"
    and accepted: "authMiddleware demoLib demoKeys req = next_ServeHTTP req"
    and tampered: "\<forall>B. Sum256 demoLib B \<noteq> Sum256 demoLib ''data'' \<longrightarrow>
           authMiddleware demoLib demoKeys (req\<lparr>Body := NewBuffer B\<rparr>) =
             http_Error ''Signature verification failed'' 401"
    by blast
  from sent have req: "req = demoRequest ''SHA256:K'' ''bKdata'' ''data''"
    by (simp add: demo_doHTTPSRequest)
  have "(demoRequest ''SHA256:K'' ''bKdata'' ''data'')\<lparr>Body := NewBuffer ''dat4''\<rparr>
      = demoRequest ''SHA256:K'' ''bKdata'' ''dat4''"
    by (simp add: demoRequest_def)
  with tampered differs req
  have rejected: "authMiddleware demoLib demoKeys (demoRequest ''SHA256:K'' ''bKdata'' ''dat4'')
      = http_Error ''Signature verification failed'' 401"
    by metis
  from demo_getSigner sent accepted rejected differs show ?thesis
    by (simp add: req)
qed

section \<open>Properties of key discovery\<close>

lemma searchDefaultKeys_find:
  "searchDefaultKeys H sshDir keyFiles =
     (case List.find (Stat H) (map (\<lambda>keyFile. Join H [sshDir, keyFile]) keyFiles) of
        None \<Rightarrow> Inl NoPrivateKeyFound
      | Some path \<Rightarrow> Inr path)"
  by (induction keyFiles) (simp_all add: Let_def)

lemma findPrivateKey_find:
  "UserHomeDir H = Inr home \<Longrightarrow>
   findPrivateKey H =
     (case List.find (Stat H)
             [Join H [home, ''.config'', ''pb'', ''id_ed25519''],
              Join H [Join H [home, ''.ssh''], ''id_ed25519''],
              Join H [Join H [home, ''.ssh''], ''id_ecdsa''],
              Join H [Join H [home, ''.ssh''], ''id_rsa'']] of
        None \<Rightarrow> Inl NoPrivateKeyFound
      | Some path \<Rightarrow> Inr path)"
  by (simp add: findPrivateKey_def searchDefaultKeys_find defaultKeys_def ProgramName_def Let_def)

text \<open>
  Claim C8, as the code has it.  A key path given explicitly is the only file tried.
  Without one, the file tried is the first that exists among the program-specific key
  and \<open>id_ed25519\<close>, \<open>id_ecdsa\<close>, \<open>id_rsa\<close> in \<open>~/.ssh\<close>, in this order; when none
  exists the result is the "no private key found" error.  The file chosen is then read
  and parsed, and a failure of either is the result: no later candidate is tried.
  Whenever no signer is obtained, \<open>doHTTPSRequest\<close> returns that error and attempts no
  network request.
\<close>

theorem getSigner_uses_first_existing_file:
  "(keyPath H \<noteq> [] \<longrightarrow>
      getSigner L H =
        (case ReadFile H (keyPath H) of
           Inl err \<Rightarrow> Inl (CouldNotReadPrivateKey (keyPath H))
         | Inr privateKeyBytes \<Rightarrow>
            (case ParsePrivateKey L privateKeyBytes of
               None \<Rightarrow> Inl CouldNotParsePrivateKey
             | Some signer \<Rightarrow> Inr signer))) \<and>
   (keyPath H = [] \<and> UserHomeDir H = Inr home \<longrightarrow>
      getSigner L H =
        (case List.find (Stat H)
                [Join H [home, ''.config'', ''pb'', ''id_ed25519''],
                 Join H [Join H [home, ''.ssh''], ''id_ed25519''],
                 Join H [Join H [home, ''.ssh''], ''id_ecdsa''],
                 Join H [Join H [home, ''.ssh''], ''id_rsa'']] of
           None \<Rightarrow> Inl NoPrivateKeyFound
         | Some path \<Rightarrow>
            (case ReadFile H path of
               Inl err \<Rightarrow> Inl (CouldNotReadPrivateKey path)
             | Inr privateKeyBytes \<Rightarrow>
                (case ParsePrivateKey L privateKeyBytes of
                   None \<Rightarrow> Inl CouldNotParsePrivateKey
                 | Some signer \<Rightarrow> Inr signer)))) \<and>
   (getSigner L H = Inl err \<longrightarrow> doHTTPSRequest L H httpMethod url data = (Inl err, []))"
proof -
  have explicit: "keyPath H \<noteq> [] \<Longrightarrow>
      getSigner L H =
        (case ReadFile H (keyPath H) of
           Inl err \<Rightarrow> Inl (CouldNotReadPrivateKey (keyPath H))
         | Inr privateKeyBytes \<Rightarrow>
            (case ParsePrivateKey L privateKeyBytes of
               None \<Rightarrow> Inl CouldNotParsePrivateKey
             | Some signer \<Rightarrow> Inr signer))"
    by (simp add: getSigner_def)
  have search: "keyPath H = [] \<Longrightarrow> UserHomeDir H = Inr home \<Longrightarrow>
      getSigner L H =
        (case List.find (Stat H)
                [Join H [home, ''.config'', ''pb'', ''id_ed25519''],
                 Join H [Join H [home, ''.ssh''], ''id_ed25519''],
                 Join H [Join H [home, ''.ssh''], ''id_ecdsa''],
                 Join H [Join H [home, ''.ssh''], ''id_rsa'']] of
           None \<Rightarrow> Inl NoPrivateKeyFound
         | Some path \<Rightarrow>
            (case ReadFile H path of
               Inl err \<Rightarrow> Inl (CouldNotReadPrivateKey path)
             | Inr privateKeyBytes \<Rightarrow>
                (case ParsePrivateKey L privateKeyBytes of
                   None \<Rightarrow> Inl CouldNotParsePrivateKey
                 | Some signer \<Rightarrow> Inr signer)))"
    unfolding getSigner_def
    by (simp only: findPrivateKey_find if_False refl not_True_eq_False simp_thms split: option.split)
      (simp split: option.split)
  have offline: "getSigner L H = Inl err \<Longrightarrow>
      doHTTPSRequest L H httpMethod url data = (Inl err, [])"
    by (simp add: doHTTPSRequest_def)
  from explicit search offline show ?thesis
    by blast
qed

theorem getSigner_uses_first_existing_file_witness:
  "keyPath (demoHost\<lparr>keyPath := ''/k''\<rparr>) \<noteq> [] \<and>
   getSigner demoLib (demoHost\<lparr>keyPath := ''/k''\<rparr>) = Inl (CouldNotReadPrivateKey ''/k'') \<and>
   doHTTPSRequest demoLib (demoHost\<lparr>keyPath := ''/k''\<rparr>) ''GET'' ''https://localhost:2850/paste'' []
     = (Inl (CouldNotReadPrivateKey ''/k''), []) \<and>
   keyPath demoHost = [] \<and>
   getSigner demoLib demoHost = Inr (CHR ''K'') \<and>
   getSigner demoLib (demoHost\<lparr>Stat := (\<lambda>p. False)\<rparr>) = Inl NoPrivateKeyFound \<and>
   doHTTPSRequest demoLib (demoHost\<lparr>Stat := (\<lambda>p. False)\<rparr>) ''GET'' ''https://localhost:2850/paste'' []
     = (Inl NoPrivateKeyFound, [])"
proof -
  let ?explicit = "demoHost\<lparr>keyPath := ''/k''\<rparr>"
  let ?none = "demoHost\<lparr>Stat := (\<lambda>p. False)\<rparr>"
  note inst = getSigner_uses_first_existing_file [where L = demoLib and home = "''/home/u''"
      and httpMethod = "''GET''" and url = "''https://localhost:2850/paste''" and data = "[]"]
  have k: "keyPath ?explicit \<noteq> []" "keyPath demoHost = []"
    by (simp_all add: demoHost_def)
  have e: "getSigner demoLib ?explicit = Inl (CouldNotReadPrivateKey ''/k'')"
    using inst [where H = ?explicit] by (simp add: demoHost_def)
  have e': "doHTTPSRequest demoLib ?explicit ''GET'' ''https://localhost:2850/paste'' []
     = (Inl (CouldNotReadPrivateKey ''/k''), [])"
    using e inst [where H = ?explicit and err = "CouldNotReadPrivateKey ''/k''"] by blast
  have p: "getSigner demoLib demoHost = Inr (CHR ''K'')"
    using inst [where H = demoHost] by (simp add: demoHost_def demoLib_def)
  have n: "getSigner demoLib ?none = Inl NoPrivateKeyFound"
    using inst [where H = ?none] by (simp add: demoHost_def)
  have n': "doHTTPSRequest demoLib ?none ''GET'' ''https://localhost:2850/paste'' []
     = (Inl NoPrivateKeyFound, [])"
    using n inst [where H = ?none and err = NoPrivateKeyFound] by blast
  from k e e' p n n' show ?thesis by blast
qed

text \<open>
  The claim's "first existing, parseable file wins" does not hold.  On the first host the
  program-specific key file exists and does not parse, \<open>~/.ssh/id_ed25519\<close> exists and
  parses, and the result is the parse error, not the second key.  On the second host
  the key path given explicitly does not exist, the program-specific key file exists and
  parses, and the result is the read error.
\<close>

theorem first_parseable_key_counterexample:
  "keyPath twoKeyHost = [] \<and>
   Stat twoKeyHost ''/home/u/.config/pb/id_ed25519'' \<and>
   ReadFile twoKeyHost ''/home/u/.config/pb/id_ed25519'' = Inr ''not a key'' \<and>
   ParsePrivateKey demoLib ''not a key'' = None \<and>
   Stat twoKeyHost ''/home/u/.ssh/id_ed25519'' \<and>
   ReadFile twoKeyHost ''/home/u/.ssh/id_ed25519'' = Inr ''K'' \<and>
   ParsePrivateKey demoLib ''K'' = Some (CHR ''K'') \<and>
   getSigner demoLib twoKeyHost = Inl CouldNotParsePrivateKey \<and>
   keyPath (demoHost\<lparr>keyPath := ''/k''\<rparr>) = ''/k'' \<and>
   \<not> Stat (demoHost\<lparr>keyPath := ''/k''\<rparr>) ''/k'' \<and>
   Stat (demoHost\<lparr>keyPath := ''/k''\<rparr>) ''/home/u/.config/pb/id_ed25519'' \<and>
   ReadFile (demoHost\<lparr>keyPath := ''/k''\<rparr>) ''/home/u/.config/pb/id_ed25519'' = Inr ''K'' \<and>
   getSigner demoLib (demoHost\<lparr>keyPath := ''/k''\<rparr>) = Inl (CouldNotReadPrivateKey ''/k'')"
  by (simp add: getSigner_def findPrivateKey_def twoKeyHost_def demoHost_def demoLib_def
      ProgramName_def)

section \<open>Properties of the trust store\<close>

lemma loadLoop_end:
  assumes "input \<noteq> []" and "parseAuthorizedKeyLine L (fst (cutLine input)) = None"
    and "snd (cutLine input) = []"
  shows "loadLoop L m lg input = (m, lg @ [''Could not parse authorized key: %v''])"
proof -
  have "ParseAuthorizedKey L input = (None, [])"
    using assms by (simp add: ParseAuthorizedKey.simps [of L input] ParseAuthorizedKey.simps [of L "[]"])
  with assms(1) show ?thesis
    by (simp add: loadLoop.simps [of L m lg input] loadLoop.simps [of L m _ "[]"])
qed

lemma loadLoop_skip:
  assumes "input \<noteq> []" and "parseAuthorizedKeyLine L (fst (cutLine input)) = None"
    and "snd (cutLine input) \<noteq> []"
  shows "loadLoop L m lg input = loadLoop L m lg (snd (cutLine input))"
proof -
  have same: "ParseAuthorizedKey L input = ParseAuthorizedKey L (snd (cutLine input))"
    using assms by (simp add: ParseAuthorizedKey.simps [of L input])
  have "loadLoop L m lg input =
      (case fst (ParseAuthorizedKey L input) of
         None \<Rightarrow>
           loadLoop L m (lg @ [''Could not parse authorized key: %v''])
             (snd (ParseAuthorizedKey L input))
       | Some pubKey \<Rightarrow>
           loadLoop L (m(FingerprintSHA256 L pubKey \<mapsto> pubKey)) lg
             (snd (ParseAuthorizedKey L input)))"
    using assms(1) by (simp add: loadLoop.simps [of L m lg input])
  also have "\<dots> = loadLoop L m lg (snd (cutLine input))"
    unfolding same using assms(3) by (simp add: loadLoop.simps [of L m lg "snd (cutLine input)"])
  finally show ?thesis .
qed

lemma loadLoop_take:
  assumes "input \<noteq> []" and "parseAuthorizedKeyLine L (fst (cutLine input)) = Some k"
  shows "loadLoop L m lg input
           = loadLoop L (m(FingerprintSHA256 L k \<mapsto> k)) lg (snd (cutLine input))"
  using assms by (simp add: loadLoop.simps [of L m lg input] ParseAuthorizedKey.simps [of L input])

lemma addKeyLine_None: "parseAuthorizedKeyLine L l = None \<Longrightarrow> addKeyLine L m l = m"
  by (simp add: addKeyLine_def)

lemma addKeyLine_Some:
  "parseAuthorizedKeyLine L l = Some k \<Longrightarrow> addKeyLine L m l = m(FingerprintSHA256 L k \<mapsto> k)"
  by (simp add: addKeyLine_def)

lemma splitLines_Nil: "splitLines input = [] \<longleftrightarrow> input = []"
  by (simp add: splitLines.simps [of input])

text \<open>
  The loop adds the key of every line that holds one, and logs one parse error exactly
  when the last line of the input holds none.
\<close>

lemma loadLoop_lines:
  "loadLoop L m lg input =
     (foldl (addKeyLine L) m (splitLines input),
      lg @ (if input \<noteq> [] \<and> parseAuthorizedKeyLine L (last (splitLines input)) = None
            then [''Could not parse authorized key: %v''] else []))"
proof (induction input arbitrary: m rule: splitLines.induct)
  case (1 input)
  show ?case
  proof (cases "input = []")
    case True
    then show ?thesis
      by (simp add: loadLoop.simps [of L m lg "[]"] splitLines.simps [of "[]"])
  next
    case False
    let ?line = "fst (cutLine input)" and ?rest = "snd (cutLine input)"
    from False have lines: "splitLines input = ?line # splitLines ?rest"
      by (simp add: splitLines.simps [of input])
    have last: "last (splitLines input) = (if ?rest = [] then ?line else last (splitLines ?rest))"
      by (simp add: lines splitLines_Nil)
    have fold: "foldl (addKeyLine L) m (splitLines input)
        = foldl (addKeyLine L) (addKeyLine L m ?line) (splitLines ?rest)"
      by (simp add: lines)
    show ?thesis
    proof (cases "parseAuthorizedKeyLine L ?line")
      case None
      show ?thesis
      proof (cases "?rest = []")
        case True
        have "loadLoop L m lg input = (m, lg @ [''Could not parse authorized key: %v''])"
          using False None True by (rule loadLoop_end)
        moreover have "foldl (addKeyLine L) m (splitLines input) = m"
          using True by (simp add: fold addKeyLine_None [OF None] splitLines.simps [of "[]"])
        ultimately show ?thesis
          using False None True by (simp add: last)
      next
        case rest: False
        have "loadLoop L m lg input = loadLoop L m lg ?rest"
          using False None rest by (rule loadLoop_skip)
        also have "\<dots> =
            (foldl (addKeyLine L) m (splitLines ?rest),
             lg @ (if ?rest \<noteq> [] \<and> parseAuthorizedKeyLine L (last (splitLines ?rest)) = None
                   then [''Could not parse authorized key: %v''] else []))"
          by (rule "1.IH" [OF False])
        finally show ?thesis
          using False rest by (simp add: last fold addKeyLine_None [OF None])
      qed
    next
      case (Some k)
      have "loadLoop L m lg input = loadLoop L (m(FingerprintSHA256 L k \<mapsto> k)) lg ?rest"
        using False Some by (rule loadLoop_take)
      also have "\<dots> =
          (foldl (addKeyLine L) (m(FingerprintSHA256 L k \<mapsto> k)) (splitLines ?rest),
           lg @ (if ?rest \<noteq> [] \<and> parseAuthorizedKeyLine L (last (splitLines ?rest)) = None
                 then [''Could not parse authorized key: %v''] else []))"
        by (rule "1.IH" [OF False])
      finally have step: "loadLoop L m lg input =
          (foldl (addKeyLine L) (m(FingerprintSHA256 L k \<mapsto> k)) (splitLines ?rest),
           lg @ (if ?rest \<noteq> [] \<and> parseAuthorizedKeyLine L (last (splitLines ?rest)) = None
                 then [''Could not parse authorized key: %v''] else []))" .
      have upd: "addKeyLine L m ?line = m(FingerprintSHA256 L k \<mapsto> k)"
        by (rule addKeyLine_Some [OF Some])
      show ?thesis
        unfolding step fold upd last using False Some by simp
    qed
  qed
qed

lemma dom_foldl_addKeyLine:
  "dom (foldl (addKeyLine L) m ls) =
     dom m \<union> {FingerprintSHA256 L k | k l. l \<in> set ls \<and> parseAuthorizedKeyLine L l = Some k}"
proof (induction ls arbitrary: m)
  case Nil
  then show ?case by simp
next
  case (Cons l ls)
  have step: "dom (foldl (addKeyLine L) m (l # ls)) =
      dom (addKeyLine L m l) \<union>
        {FingerprintSHA256 L k | k l. l \<in> set ls \<and> parseAuthorizedKeyLine L l = Some k}"
    by (simp add: Cons.IH)
  show ?case
  proof (cases "parseAuthorizedKeyLine L l")
    case None
    then show ?thesis
      unfolding step addKeyLine_None [OF None] by auto
  next
    case (Some k)
    then show ?thesis
      unfolding step addKeyLine_Some [OF Some] by auto
  qed
qed

lemma foldl_addKeyLine_lookup:
  assumes "\<forall>l \<in> set ls. \<forall>k. parseAuthorizedKeyLine L l = Some k \<and> FingerprintSHA256 L k = f \<longrightarrow> k = k0"
    and "m f = Some k0 \<or> (\<exists>l \<in> set ls. parseAuthorizedKeyLine L l = Some k0 \<and> FingerprintSHA256 L k0 = f)"
  shows "foldl (addKeyLine L) m ls f = Some k0"
  using assms
proof (induction ls arbitrary: m)
  case Nil
  then show ?case by simp
next
  case (Cons l ls)
  have rest: "\<forall>l \<in> set ls. \<forall>k. parseAuthorizedKeyLine L l = Some k \<and> FingerprintSHA256 L k = f \<longrightarrow> k = k0"
    using Cons.prems(1) by simp
  have here: "addKeyLine L m l f = Some k0 \<or>
        (\<exists>l \<in> set ls. parseAuthorizedKeyLine L l = Some k0 \<and> FingerprintSHA256 L k0 = f)"
  proof (cases "parseAuthorizedKeyLine L l")
    case None
    with Cons.prems(2) show ?thesis
      by (auto simp: addKeyLine_None [OF None])
  next
    case (Some k)
    with Cons.prems show ?thesis
      by (auto simp: addKeyLine_Some [OF Some])
  qed
  have "foldl (addKeyLine L) (addKeyLine L m l) ls f = Some k0"
    using rest here by (rule Cons.IH)
  then show ?case by simp
qed

lemma demo_lines: "splitLines demoAuthorizedKeys = [''key A'', ''no key here'', ''key B'']"
  by (simp add: demoAuthorizedKeys_def newline_def splitLines.simps cutLine_def)

text \<open>
  What \<open>loadAuthorizedKeys\<close> computes.  Whatever the authorized-keys file holds, it
  returns a store and no error: the store is the result of going through the lines of
  the file in order, each line that holds a public key adding that key under its SHA-256
  fingerprint and every other line leaving the store as it is.  Its log holds one parse
  error when the last line of the file holds no key, and none otherwise.  When the file
  does not exist it returns the empty store and no error.  A file whose lines are two
  public-key lines, for keys with different fingerprints, and one line that holds no key,
  in any order, gives a store with exactly two entries, one per key, under the keys'
  fingerprints.
\<close>

lemma loadAuthorizedKeys_lines:
  "(readFile path = Inr content \<longrightarrow>
      fst (loadAuthorizedKeys L readFile path)
        = Inr (foldl (addKeyLine L) Map.empty (splitLines content)) \<and>
      snd (loadAuthorizedKeys L readFile path)
        = (if content \<noteq> [] \<and> parseAuthorizedKeyLine L (last (splitLines content)) = None
           then [''Could not parse authorized key: %v''] else [])
          @ [''Loaded %d authorized keys from %s'']) \<and>
   (readFile path = Inl err \<and> IsNotExist err \<longrightarrow>
      fst (loadAuthorizedKeys L readFile path) = Inr Map.empty) \<and>
   (readFile path = Inr content \<and> set (splitLines content) = {v1, v2, g} \<and>
    parseAuthorizedKeyLine L v1 = Some k1 \<and> parseAuthorizedKeyLine L v2 = Some k2 \<and>
    parseAuthorizedKeyLine L g = None \<and>
    FingerprintSHA256 L k1 \<noteq> FingerprintSHA256 L k2 \<longrightarrow>
      (\<exists>store. fst (loadAuthorizedKeys L readFile path) = Inr store \<and>
         dom store = {FingerprintSHA256 L k1, FingerprintSHA256 L k2} \<and>
         card (dom store) = 2 \<and>
         store (FingerprintSHA256 L k1) = Some k1 \<and>
         store (FingerprintSHA256 L k2) = Some k2))"
proof -
  have content: "readFile path = Inr content \<Longrightarrow>
      fst (loadAuthorizedKeys L readFile path)
        = Inr (foldl (addKeyLine L) Map.empty (splitLines content))"
    by (simp add: loadAuthorizedKeys_def loadLoop_lines)
  have logged: "readFile path = Inr content \<Longrightarrow>
      snd (loadAuthorizedKeys L readFile path)
        = (if content \<noteq> [] \<and> parseAuthorizedKeyLine L (last (splitLines content)) = None
           then [''Could not parse authorized key: %v''] else [])
          @ [''Loaded %d authorized keys from %s'']"
    by (simp add: loadAuthorizedKeys_def loadLoop_lines)
  have missing: "readFile path = Inl err \<Longrightarrow> IsNotExist err \<Longrightarrow>
      fst (loadAuthorizedKeys L readFile path) = Inr Map.empty"
    by (simp add: loadAuthorizedKeys_def)
  have three: "\<exists>store. fst (loadAuthorizedKeys L readFile path) = Inr store \<and>
         dom store = {FingerprintSHA256 L k1, FingerprintSHA256 L k2} \<and>
         card (dom store) = 2 \<and>
         store (FingerprintSHA256 L k1) = Some k1 \<and>
         store (FingerprintSHA256 L k2) = Some k2"
    if rd: "readFile path = Inr content"
      and lines: "set (splitLines content) = {v1, v2, g}"
      and v1: "parseAuthorizedKeyLine L v1 = Some k1"
      and v2: "parseAuthorizedKeyLine L v2 = Some k2"
      and g: "parseAuthorizedKeyLine L g = None"
      and distinct: "FingerprintSHA256 L k1 \<noteq> FingerprintSHA256 L k2"
  proof -
    let ?store = "foldl (addKeyLine L) Map.empty (splitLines content)"
    have "dom ?store = {FingerprintSHA256 L k | k l. l \<in> {v1, v2, g} \<and> parseAuthorizedKeyLine L l = Some k}"
      by (simp add: dom_foldl_addKeyLine lines)
    also have "\<dots> = {FingerprintSHA256 L k1, FingerprintSHA256 L k2}"
      using v1 v2 g by auto
    finally have dom: "dom ?store = {FingerprintSHA256 L k1, FingerprintSHA256 L k2}" .
    have card: "card (dom ?store) = 2"
      using distinct by (simp add: dom)
    have one: "?store (FingerprintSHA256 L k1) = Some k1"
      by (rule foldl_addKeyLine_lookup) (use lines v1 v2 g distinct in auto)
    have two: "?store (FingerprintSHA256 L k2) = Some k2"
      by (rule foldl_addKeyLine_lookup) (use lines v1 v2 g distinct in auto)
    from content [OF rd] dom card one two show ?thesis
      by blast
  qed
  from content logged missing three show ?thesis
    by blast
qed

text \<open>
  Claim C4.  The claim has a malformed line logged and skipped, and so has the comment
  in the loop ("Log the error but continue, in case of a malformed line").  On an
  authorized-keys file whose lines are a public key, a line that holds no key and another
  public key, loading returns no error and a store with exactly the two keys, under their
  fingerprints, but it logs nothing for the malformed line: its log is the closing line
  alone, without a "Could not parse authorized key" entry.  \<open>ssh.ParseAuthorizedKey\<close>
  passes over a line without a key by itself when a key line follows, so the branch of
  the loop that logs is not reached for it.
\<close>

theorem malformed_line_skipped_without_log:
  "demoFiles ''/home/u/.config/pb/authorized_keys'' = Inr demoAuthorizedKeys \<and>
   splitLines demoAuthorizedKeys = [''key A'', ''no key here'', ''key B''] \<and>
   parseAuthorizedKeyLine demoLib ''key A'' = Some (CHR ''A'') \<and>
   parseAuthorizedKeyLine demoLib ''no key here'' = None \<and>
   parseAuthorizedKeyLine demoLib ''key B'' = Some (CHR ''B'') \<and>
   loadAuthorizedKeys demoLib demoFiles ''/home/u/.config/pb/authorized_keys''
     = (Inr [''SHA256:A'' \<mapsto> CHR ''A'', ''SHA256:B'' \<mapsto> CHR ''B''],
        [''Loaded %d authorized keys from %s'']) \<and>
   ''Could not parse authorized key: %v''
     \<notin> set (snd (loadAuthorizedKeys demoLib demoFiles ''/home/u/.config/pb/authorized_keys''))"
proof -
  have loaded: "loadAuthorizedKeys demoLib demoFiles ''/home/u/.config/pb/authorized_keys''
     = (Inr [''SHA256:A'' \<mapsto> CHR ''A'', ''SHA256:B'' \<mapsto> CHR ''B''],
        [''Loaded %d authorized keys from %s''])"
    by (simp add: loadAuthorizedKeys_def loadLoop_lines demo_lines demoFiles_def addKeyLine_def)
      (simp add: demoLib_def demoAuthorizedKeys_def)
  have rd: "demoFiles ''/home/u/.config/pb/authorized_keys'' = Inr demoAuthorizedKeys"
    by (simp add: demoFiles_def)
  have lines: "parseAuthorizedKeyLine demoLib ''key A'' = Some (CHR ''A'')"
    "parseAuthorizedKeyLine demoLib ''no key here'' = None"
    "parseAuthorizedKeyLine demoLib ''key B'' = Some (CHR ''B'')"
    by (simp_all add: demoLib_def)
  from rd loaded lines demo_lines show ?thesis
    by simp
qed

section \<open>Properties of the clipboard manager\<close>

lemma inv_Init: "fallbackInvariant w \<Longrightarrow> fallbackInvariant (Init P w)"
  by (auto simp: fallbackInvariant_def Init_def initPlatformClipboard_def split: option.splits)

lemma inv_UseInMemoryClipboard: "fallbackInvariant (UseInMemoryClipboard w)"
  by (simp add: fallbackInvariant_def UseInMemoryClipboard_def split: option.splits)

lemma inv_UseCliClipboard: "fallbackInvariant (snd (UseCliClipboard w))"
  by (simp add: fallbackInvariant_def UseCliClipboard_def getCLIClipboard_def split: option.splits)

lemma inv_switchToFallback: "fallbackInvariant (switchToFallback w)"
  by (simp add: fallbackInvariant_def switchToFallback_def Let_def split: option.splits)

lemma inv_switchToSystemLocked: "fallbackInvariant (switchToSystemLocked P w)"
  by (simp add: fallbackInvariant_def switchToSystemLocked_def getPrimaryClipboard_def
      split: option.splits)

lemma inv_signalHealthCheckDone:
  "fallbackInvariant w \<Longrightarrow> fallbackInvariant (signalHealthCheckDone received w)"
  by (simp add: fallbackInvariant_def signalHealthCheckDone_def)

lemma inv_switchToSystem: "fallbackInvariant (switchToSystem P received w)"
  unfolding switchToSystem_def
  by (rule inv_signalHealthCheckDone [OF inv_switchToSystemLocked])

lemma inv_healthCheckTick:
  "fallbackInvariant w \<Longrightarrow> fallbackInvariant (healthCheckTick P testRead w)"
  using inv_switchToSystemLocked [of P w]
  by (simp add: healthCheckTick_def fallbackInvariant_def)

lemma inv_healthCheckLeave:
  "fallbackInvariant w \<Longrightarrow> fallbackInvariant (healthCheckLeave received w)"
  using inv_signalHealthCheckDone [of w received]
  by (simp add: healthCheckLeave_def fallbackInvariant_def)

lemma state_after_timeout:
  "getActiveClipboard w = Some act \<Longrightarrow> state (switchToFallback w) \<noteq> None"
  by (cases "state w") (simp_all add: getActiveClipboard_def switchToFallback_def Let_def)

lemma state_backendCopy:
  "backendCopy c primary d w = Completes (r, w') \<Longrightarrow> state w' = state w"
  by (auto simp: backendCopy_def split: clipboarder.splits reply.splits)

lemma inv_Copy:
  assumes "fallbackInvariant w" and "Copy primary d w = Completes (r, w')"
  shows "fallbackInvariant w'"
proof (cases "getActiveClipboard w")
  case None
  with assms show ?thesis by (simp add: Copy_def)
next
  case (Some act)
  show ?thesis
  proof (cases "isUsingFallback w")
    case True
    with Some assms(2) have "backendCopy act primary d w = Completes (r, w')"
      by (simp add: Copy_def)
    then have "state w' = state w"
      by (rule state_backendCopy)
    with assms(1) show ?thesis by (simp add: fallbackInvariant_def)
  next
    case False
    show ?thesis
    proof (cases "backendCopy act primary d w")
      case (Completes x)
      with Some False assms(2) have "backendCopy act primary d w = Completes (r, w')"
        by (simp add: Copy_def)
      then have "state w' = state w"
        by (rule state_backendCopy)
      with assms(1) show ?thesis by (simp add: fallbackInvariant_def)
    next
      case TimesOut
      show ?thesis
      proof (cases "state (switchToFallback w)")
        case None
        with Some False TimesOut assms(2) have "w' = switchToFallback w"
          by (simp add: Copy_def Let_def)
        then show ?thesis by (simp add: inv_switchToFallback)
      next
        case (Some s)
        with \<open>getActiveClipboard w = Some act\<close> False TimesOut assms(2)
        have "backendCopy (inMemoryClipboard (fallback s)) primary d (switchToFallback w)
            = Completes (r, w')"
          by (simp add: Copy_def Let_def)
        then have "state w' = state (switchToFallback w)"
          by (rule state_backendCopy)
        with inv_switchToFallback [of w] show ?thesis by (simp add: fallbackInvariant_def)
      qed
    qed
  qed
qed

lemma Paste_world:
  assumes "Paste primary w = Completes (r, w')"
  shows "w' = w \<or> w' = switchToFallback w"
proof (cases "getActiveClipboard w")
  case None
  with assms show ?thesis by (simp add: Paste_def)
next
  case (Some act)
  show ?thesis
  proof (cases "isUsingFallback w")
    case True
    with Some assms show ?thesis
      by (cases "backendPaste act primary w") (simp_all add: Paste_def)
  next
    case False
    show ?thesis
    proof (cases "backendPaste act primary w")
      case (Completes x)
      with Some False assms show ?thesis by (simp add: Paste_def)
    next
      case TimesOut
      show ?thesis
      proof (cases "state (switchToFallback w)")
        case None
        with Some False TimesOut assms show ?thesis
          by (simp add: Paste_def Let_def)
      next
        case (Some s)
        with \<open>getActiveClipboard w = Some act\<close> False TimesOut assms show ?thesis
          by (simp add: Paste_def Let_def backendPaste_def)
      qed
    qed
  qed
qed

lemma inv_Paste:
  assumes "fallbackInvariant w" and "Paste primary w = Completes (r, w')"
  shows "fallbackInvariant w'"
  using Paste_world [OF assms(2)] assms(1) inv_switchToFallback [of w] by auto

lemma inv_exec: "fallbackInvariant w \<Longrightarrow> fallbackInvariant (exec P w e)"
proof (cases e)
  case (CallCopy primary d)
  assume inv: "fallbackInvariant w"
  show ?thesis
  proof (cases "Copy primary d w")
    case TimesOut
    with inv CallCopy show ?thesis by simp
  next
    case (Completes x)
    then have "Copy primary d w = Completes (fst x, snd x)" by simp
    from inv_Copy [OF inv this] Completes CallCopy show ?thesis by simp
  qed
next
  case (CallPaste primary)
  assume inv: "fallbackInvariant w"
  show ?thesis
  proof (cases "Paste primary w")
    case TimesOut
    with inv CallPaste show ?thesis by simp
  next
    case (Completes x)
    then have "Paste primary w = Completes (fst x, snd x)" by simp
    from inv_Paste [OF inv this] Completes CallPaste show ?thesis by simp
  qed
qed (simp_all add: inv_Init inv_UseInMemoryClipboard inv_UseCliClipboard inv_switchToFallback
    inv_healthCheckTick inv_healthCheckLeave)

lemma inv_world0: "fallbackInvariant world0"
  by (simp add: fallbackInvariant_def world0_def)

lemma inv_foldl: "fallbackInvariant w \<Longrightarrow> fallbackInvariant (foldl (exec P) w evs)"
  by (induction evs arbitrary: w) (simp_all add: inv_exec)

lemma inv_run: "fallbackInvariant (run P evs)"
  unfolding run_def by (rule inv_foldl [OF inv_world0])

lemmas manager_defs =
  run_def world0_def desktop_def Init_def initPlatformClipboard_def getPrimaryClipboard_def
  getCLIClipboard_def UseInMemoryClipboard_def UseCliClipboard_def getActiveClipboard_def
  isUsingFallback_def switchToFallback_def switchToSystemLocked_def signalHealthCheckDone_def
  switchToSystem_def isClipboardResponsive_def healthCheckTick_def healthCheckLeave_def backendCopy_def backendPaste_def Copy_def Paste_def Let_def

text \<open>
  Claim C7.  \<open>usingFallback\<close> is true exactly when the active backend is the manager's
  own in-memory fallback instance: this holds after initialisation, it holds after
  \<open>switchToFallback\<close>, \<open>switchToSystem\<close>, \<open>UseInMemoryClipboard\<close> and
  \<open>UseCliClipboard\<close> from any state, every step of an execution preserves it, and so it
  holds in every state an execution reaches.
\<close>

theorem usingFallback_iff_active_is_fallback:
  "fallbackInvariant (Init P world0) \<and>
   fallbackInvariant (switchToFallback w) \<and>
   fallbackInvariant (switchToSystem P received w) \<and>
   fallbackInvariant (UseInMemoryClipboard w) \<and>
   fallbackInvariant (snd (UseCliClipboard w)) \<and>
   (fallbackInvariant w \<longrightarrow> fallbackInvariant (exec P w e)) \<and>
   fallbackInvariant (run P evs) \<and>
   (state (run P evs) = Some s \<longrightarrow>
      usingFallback s = (active s = Some (inMemoryClipboard (fallback s))))"
proof -
  have reach: "state (run P evs) = Some s \<Longrightarrow>
      usingFallback s = (active s = Some (inMemoryClipboard (fallback s)))"
    using inv_run [of P evs] by (simp add: fallbackInvariant_def)
  show ?thesis
    using inv_Init [OF inv_world0, of P] inv_switchToFallback [of w]
      inv_switchToSystem [of P received w] inv_UseInMemoryClipboard [of w]
      inv_UseCliClipboard [of w] inv_exec [of w P e] inv_run [of P evs] reach
    by blast
qed

lemma demo_failover:
  "run desktop [CallInit, CallCopy TimesOut ''x''] =
     \<lparr>state = Some \<lparr>active = Some (inMemoryClipboard 0), fallback = 0, usingFallback = True\<rparr>,
      inMemoryData = (\<lambda>p. [])(0 := ''x''), healthChecks = 1, leaving = 0\<rparr>"
  by (simp add: manager_defs)

theorem usingFallback_iff_active_is_fallback_witness:
  "fallbackInvariant (Init desktop world0) \<and>
   fallbackInvariant (exec desktop (Init desktop world0) (CallCopy TimesOut ''x'')) \<and>
   state (run desktop [CallInit, CallCopy TimesOut ''x''])
     = Some \<lparr>active = Some (inMemoryClipboard 0), fallback = 0, usingFallback = True\<rparr> \<and>
   usingFallback \<lparr>active = Some (inMemoryClipboard 0), fallback = 0, usingFallback = True\<rparr>
     = (active \<lparr>active = Some (inMemoryClipboard 0), fallback = 0, usingFallback = True\<rparr>
          = Some (inMemoryClipboard
              (fallback \<lparr>active = Some (inMemoryClipboard 0), fallback = 0, usingFallback = True\<rparr>)))"
proof -
  let ?s = "\<lparr>active = Some (inMemoryClipboard 0), fallback = 0, usingFallback = True\<rparr>"
  note inst = usingFallback_iff_active_is_fallback [where P = desktop
      and w = "Init desktop world0" and e = "CallCopy TimesOut ''x''"
      and evs = "[CallInit, CallCopy TimesOut ''x'']" and s = ?s]
  have st: "state (run desktop [CallInit, CallCopy TimesOut ''x'']) = Some ?s"
    by (simp add: demo_failover)
  from inst st show ?thesis
    by blast
qed

lemma demo_init:
  "Init desktop world0 =
     \<lparr>state = Some \<lparr>active = Some systemClipboard, fallback = 0, usingFallback = False\<rparr>,
      inMemoryData = (\<lambda>p. []), healthChecks = 0, leaving = 0\<rparr>"
  by (simp add: manager_defs fun_eq_iff)

text \<open>
  Claim C2.  Let a primary backend (system clipboard or command-line tools) be active.
  A \<open>Copy\<close> whose backend call does not complete within the timeout returns no error;
  afterwards the active backend is the in-memory fallback, \<open>usingFallback\<close> is set and the
  fallback holds the data.  A \<open>Paste\<close> in that state returns the data and leaves the state
  as it is whatever the primary backend would do, a timeout included: it does not go
  through the timeout path.  A \<open>Paste\<close> whose backend call times out likewise switches to
  the fallback and returns what the fallback holds.
\<close>

theorem timeout_fails_over_to_fallback:
  assumes st: "state w = Some s"
    and act: "active s = Some systemClipboard \<or> active s = Some cliClipboard"
    and primary: "\<not> usingFallback s"
  shows "Copy TimesOut d w
           = Completes (None, (switchToFallback w)\<lparr>inMemoryData := (inMemoryData w)(fallback s := d)\<rparr>) \<and>
         state ((switchToFallback w)\<lparr>inMemoryData := (inMemoryData w)(fallback s := d)\<rparr>)
           = Some (s\<lparr>active := Some (inMemoryClipboard (fallback s)), usingFallback := True\<rparr>) \<and>
         inMemoryData ((switchToFallback w)\<lparr>inMemoryData := (inMemoryData w)(fallback s := d)\<rparr>)
           (fallback s) = d \<and>
         (\<forall>reply. Paste reply ((switchToFallback w)\<lparr>inMemoryData := (inMemoryData w)(fallback s := d)\<rparr>)
           = Completes (Inr d, (switchToFallback w)\<lparr>inMemoryData := (inMemoryData w)(fallback s := d)\<rparr>)) \<and>
         Paste TimesOut w = Completes (Inr (inMemoryData w (fallback s)), switchToFallback w) \<and>
         state (switchToFallback w)
           = Some (s\<lparr>active := Some (inMemoryClipboard (fallback s)), usingFallback := True\<rparr>)"
proof -
  let ?w' = "(switchToFallback w)\<lparr>inMemoryData := (inMemoryData w)(fallback s := d)\<rparr>"
  have sw: "switchToFallback w =
      w\<lparr>state := Some (s\<lparr>active := Some (inMemoryClipboard (fallback s)), usingFallback := True\<rparr>),
        healthChecks := healthChecks w + 1\<rparr>"
    using st primary by (simp add: switchToFallback_def Let_def)
  have copy: "Copy TimesOut d w = Completes (None, ?w')"
    using st act primary
    by (auto simp: Copy_def getActiveClipboard_def isUsingFallback_def backendCopy_def sw)
  have st': "state ?w' = Some (s\<lparr>active := Some (inMemoryClipboard (fallback s)), usingFallback := True\<rparr>)"
    by (simp add: sw)
  have held: "inMemoryData ?w' (fallback s) = d"
    by simp
  have paste: "Paste reply ?w' = Completes (Inr d, ?w')" for reply
    by (simp add: Paste_def getActiveClipboard_def isUsingFallback_def backendPaste_def sw)
  have paste_timeout: "Paste TimesOut w = Completes (Inr (inMemoryData w (fallback s)), switchToFallback w)"
    using st act primary
    by (auto simp: Paste_def getActiveClipboard_def isUsingFallback_def backendPaste_def sw)
  have st'': "state (switchToFallback w)
      = Some (s\<lparr>active := Some (inMemoryClipboard (fallback s)), usingFallback := True\<rparr>)"
    by (simp add: sw)
  from copy st' held paste paste_timeout st'' show ?thesis
    by blast
qed

theorem timeout_fails_over_to_fallback_witness:
  "state (Init desktop world0)
     = Some \<lparr>active = Some systemClipboard, fallback = 0, usingFallback = False\<rparr> \<and>
   Copy TimesOut ''x'' (Init desktop world0)
     = Completes (None,
         \<lparr>state = Some \<lparr>active = Some (inMemoryClipboard 0), fallback = 0, usingFallback = True\<rparr>,
          inMemoryData = (\<lambda>p. [])(0 := ''x''), healthChecks = 1, leaving = 0\<rparr>) \<and>
   Paste TimesOut
       \<lparr>state = Some \<lparr>active = Some (inMemoryClipboard 0), fallback = 0, usingFallback = True\<rparr>,
        inMemoryData = (\<lambda>p. [])(0 := ''x''), healthChecks = 1, leaving = 0\<rparr>
     = Completes (Inr ''x'',
         \<lparr>state = Some \<lparr>active = Some (inMemoryClipboard 0), fallback = 0, usingFallback = True\<rparr>,
          inMemoryData = (\<lambda>p. [])(0 := ''x''), healthChecks = 1, leaving = 0\<rparr>) \<and>
   Paste TimesOut (Init desktop world0)
     = Completes (Inr [],
         \<lparr>state = Some \<lparr>active = Some (inMemoryClipboard 0), fallback = 0, usingFallback = True\<rparr>,
          inMemoryData = (\<lambda>p. []), healthChecks = 1, leaving = 0\<rparr>)"
proof -
  let ?s = "\<lparr>active = Some systemClipboard, fallback = 0, usingFallback = False\<rparr>"
  have st: "state (Init desktop world0) = Some ?s"
    by (simp add: demo_init)
  have act: "active ?s = Some systemClipboard \<or> active ?s = Some cliClipboard"
    by simp
  have primary: "\<not> usingFallback ?s"
    by simp
  have sw: "switchToFallback (Init desktop world0) =
      \<lparr>state = Some \<lparr>active = Some (inMemoryClipboard 0), fallback = 0, usingFallback = True\<rparr>,
       inMemoryData = (\<lambda>p. []), healthChecks = 1, leaving = 0\<rparr>"
    by (simp add: demo_init switchToFallback_def Let_def)
  have mem: "inMemoryData (Init desktop world0) = (\<lambda>p. [])"
    by (simp add: demo_init)
  from timeout_fails_over_to_fallback [OF st act primary, of "''x''"] st
  show ?thesis
    by (simp add: sw mem)
qed

text \<open>
  Claim C6, as the code has it.  In every state an execution reaches with the manager
  initialised, if the manager is using the in-memory fallback, or if the \<open>Copy\<close> times
  out on its backend and so fails over to it, then \<open>Copy(X)\<close> returns no error and a
  \<open>Paste()\<close> that follows returns exactly \<open>X\<close>, for every byte sequence \<open>X\<close>, the empty
  one and those that are not UTF-8 included.
\<close>

theorem copy_then_paste_through_fallback:
  assumes st: "state (run P evs) = Some s"
    and via: "usingFallback s \<or> (primary = TimesOut \<and> active s \<noteq> None)"
  shows "\<exists>w'. Copy primary X (run P evs) = Completes (None, w') \<and>
              (\<forall>reply. Paste reply w' = Completes (Inr X, w'))"
proof -
  let ?w = "run P evs"
  have inv: "usingFallback s = (active s = Some (inMemoryClipboard (fallback s)))"
    using inv_run [of P evs] st by (simp add: fallbackInvariant_def)
  show ?thesis
  proof (cases "usingFallback s")
    case True
    let ?w' = "?w\<lparr>inMemoryData := (inMemoryData ?w)(fallback s := X)\<rparr>"
    have "Copy primary X ?w = Completes (None, ?w')"
      using st True inv
      by (simp add: Copy_def getActiveClipboard_def isUsingFallback_def backendCopy_def)
    moreover have "Paste reply ?w' = Completes (Inr X, ?w')" for reply
      using st True inv
      by (simp add: Paste_def getActiveClipboard_def isUsingFallback_def backendPaste_def)
    ultimately show ?thesis by blast
  next
    case False
    with via obtain act where timeout: "primary = TimesOut" and act: "active s = Some act"
      by auto
    let ?w' = "(switchToFallback ?w)\<lparr>inMemoryData := (inMemoryData ?w)(fallback s := X)\<rparr>"
    have sw: "switchToFallback ?w =
        ?w\<lparr>state := Some (s\<lparr>active := Some (inMemoryClipboard (fallback s)), usingFallback := True\<rparr>),
          healthChecks := healthChecks ?w + 1\<rparr>"
      using st False by (simp add: switchToFallback_def Let_def)
    have paste: "Paste reply ?w' = Completes (Inr X, ?w')" for reply
      by (simp add: Paste_def getActiveClipboard_def isUsingFallback_def backendPaste_def sw)
    show ?thesis
    proof (cases act)
      case (inMemoryClipboard p)
      let ?v = "?w\<lparr>inMemoryData := (inMemoryData ?w)(p := X)\<rparr>"
      have "Copy primary X ?w = Completes (None, ?v)"
        using st False act inMemoryClipboard
        by (simp add: Copy_def getActiveClipboard_def isUsingFallback_def backendCopy_def)
      moreover have "Paste reply ?v = Completes (Inr X, ?v)" for reply
        using st False act inMemoryClipboard
        by (simp add: Paste_def getActiveClipboard_def isUsingFallback_def backendPaste_def)
      ultimately show ?thesis by blast
    next
      case systemClipboard
      with st act False timeout have "Copy primary X ?w = Completes (None, ?w')"
        by (simp add: Copy_def getActiveClipboard_def isUsingFallback_def backendCopy_def sw)
      with paste show ?thesis by blast
    next
      case cliClipboard
      with st act False timeout have "Copy primary X ?w = Completes (None, ?w')"
        by (simp add: Copy_def getActiveClipboard_def isUsingFallback_def backendCopy_def sw)
      with paste show ?thesis by blast
    qed
  qed
qed

lemma demo_forced_fallback:
  "run desktop [CallInit, CallUseInMemoryClipboard] =
     \<lparr>state = Some \<lparr>active = Some (inMemoryClipboard 0), fallback = 0, usingFallback = True\<rparr>,
      inMemoryData = (\<lambda>p. []), healthChecks = 0, leaving = 0\<rparr>"
  by (simp add: manager_defs fun_eq_iff)

theorem copy_then_paste_through_fallback_witness:
  "state (run desktop [CallInit, CallUseInMemoryClipboard])
     = Some \<lparr>active = Some (inMemoryClipboard 0), fallback = 0, usingFallback = True\<rparr> \<and>
   (\<exists>w'. Copy (Completes None) [] (run desktop [CallInit, CallUseInMemoryClipboard])
            = Completes (None, w') \<and>
         Paste (Completes (Inr ''other'')) w' = Completes (Inr [], w')) \<and>
   (\<exists>w'. Copy (Completes None) [CHR 0xFF, CHR 0xFE] (run desktop [CallInit, CallUseInMemoryClipboard])
            = Completes (None, w') \<and>
         Paste TimesOut w' = Completes (Inr [CHR 0xFF, CHR 0xFE], w')) \<and>
   state (run desktop [CallInit])
     = Some \<lparr>active = Some systemClipboard, fallback = 0, usingFallback = False\<rparr> \<and>
   (\<exists>w'. Copy TimesOut ''abc'' (run desktop [CallInit]) = Completes (None, w') \<and>
         Paste TimesOut w' = Completes (Inr ''abc'', w'))"
proof -
  let ?fb = "\<lparr>active = Some (inMemoryClipboard 0), fallback = 0, usingFallback = True\<rparr>"
  let ?sys = "\<lparr>active = Some systemClipboard, fallback = 0, usingFallback = False\<rparr>"
  have st: "state (run desktop [CallInit, CallUseInMemoryClipboard]) = Some ?fb"
    by (simp add: demo_forced_fallback)
  have via: "usingFallback ?fb \<or> (Completes None = TimesOut \<and> active ?fb \<noteq> None)"
    by simp
  have st2: "state (run desktop [CallInit]) = Some ?sys"
    by (simp add: run_def demo_init)
  have via2: "usingFallback ?sys \<or> (TimesOut = (TimesOut :: error option reply) \<and> active ?sys \<noteq> None)"
    by simp
  from copy_then_paste_through_fallback [OF st via, of "[]"]
    copy_then_paste_through_fallback [OF st via, of "[CHR 0xFF, CHR 0xFE]"]
    copy_then_paste_through_fallback [OF st2 via2, of "''abc''"]
    st st2
  show ?thesis
    by blast
qed

text \<open>
  The round trip does not hold for every execution: when the primary backend takes the
  \<open>Copy\<close> in time and the \<open>Paste\<close> that follows times out on it, \<open>Paste\<close> fails over
  and returns what the fallback holds, which is not what was copied.
\<close>

theorem paste_after_copy_counterexample:
  "Copy (Completes None) ''hello'' (Init desktop world0) = Completes (None, Init desktop world0) \<and>
   Paste TimesOut (Init desktop world0)
     = Completes (Inr [], switchToFallback (Init desktop world0)) \<and>
   [] \<noteq> ''hello''"
  by (simp add: demo_init manager_defs)

lemma healthChecks_backendCopy:
  "backendCopy c primary d w = Completes (r, w') \<Longrightarrow> healthChecks w' = healthChecks w"
  by (auto simp: backendCopy_def split: clipboarder.splits reply.splits)

lemma Copy_control:
  assumes "Copy primary d w = Completes (r, w')"
  shows "(state w' = state w \<and> healthChecks w' = healthChecks w) \<or>
         (state w' = state (switchToFallback w) \<and>
          healthChecks w' = healthChecks (switchToFallback w))"
proof (cases "getActiveClipboard w")
  case None
  with assms show ?thesis by (simp add: Copy_def)
next
  case (Some act)
  show ?thesis
  proof (cases "isUsingFallback w")
    case True
    with Some assms have "backendCopy act primary d w = Completes (r, w')"
      by (simp add: Copy_def)
    then show ?thesis
      using state_backendCopy healthChecks_backendCopy by blast
  next
    case False
    show ?thesis
    proof (cases "backendCopy act primary d w")
      case (Completes x)
      with Some False assms have "backendCopy act primary d w = Completes (r, w')"
        by (simp add: Copy_def)
      then show ?thesis
        using state_backendCopy healthChecks_backendCopy by blast
    next
      case TimesOut
      show ?thesis
      proof (cases "state (switchToFallback w)")
        case None
        with Some False TimesOut assms have "w' = switchToFallback w"
          by (simp add: Copy_def Let_def)
        then show ?thesis by simp
      next
        case (Some s)
        with \<open>getActiveClipboard w = Some act\<close> False TimesOut assms
        have "backendCopy (inMemoryClipboard (fallback s)) primary d (switchToFallback w)
            = Completes (r, w')"
          by (simp add: Copy_def Let_def)
        then show ?thesis
          using state_backendCopy healthChecks_backendCopy by blast
      qed
    qed
  qed
qed

text \<open>What a step does to the state and to the number of health checks.\<close>

lemma exec_control:
  "(state (exec P w e) = state w \<and> healthChecks (exec P w e) = healthChecks w) \<or>
   (state (exec P w e) = state (switchToFallback w) \<and>
    healthChecks (exec P w e) = healthChecks (switchToFallback w)) \<or>
   (e = CallInit \<and> exec P w e = Init P w) \<or>
   (e = CallUseInMemoryClipboard \<and> exec P w e = UseInMemoryClipboard w) \<or>
   (e = CallUseCliClipboard \<and> exec P w e = snd (UseCliClipboard w)) \<or>
   (\<exists>testRead. e = HealthTick testRead \<and> isClipboardResponsive testRead \<and>
      healthChecks w \<noteq> 0 \<and>
      exec P w e = (switchToSystemLocked P w)
                     \<lparr>healthChecks := healthChecks w - 1, leaving := leaving w + 1\<rparr>) \<or>
   (\<exists>received. e = HealthLeave received \<and> state (exec P w e) = state w \<and>
      healthChecks (exec P w e) \<le> healthChecks w)"
proof (cases e)
  case (CallCopy primary d)
  show ?thesis
  proof (cases "Copy primary d w")
    case TimesOut
    with CallCopy show ?thesis by simp
  next
    case (Completes x)
    then have "Copy primary d w = Completes (fst x, snd x)" by simp
    from Copy_control [OF this] Completes CallCopy show ?thesis by simp
  qed
next
  case (CallPaste primary)
  show ?thesis
  proof (cases "Paste primary w")
    case TimesOut
    with CallPaste show ?thesis by simp
  next
    case (Completes x)
    then have "Paste primary w = Completes (fst x, snd x)" by simp
    from Paste_world [OF this] Completes CallPaste show ?thesis by auto
  qed
next
  case (HealthTick testRead)
  then show ?thesis
    by (cases "isClipboardResponsive testRead") (simp_all add: healthCheckTick_def)
next
  case (HealthLeave received)
  then show ?thesis
    by (simp add: healthCheckLeave_def signalHealthCheckDone_def)
qed simp_all

lemma one_switchToFallback:
  "atMostOneHealthCheck w \<Longrightarrow> atMostOneHealthCheck (switchToFallback w)"
  by (auto simp: atMostOneHealthCheck_def switchToFallback_def Let_def split: option.splits)

lemma one_control:
  "state w' = state w \<Longrightarrow> healthChecks w' \<le> healthChecks w \<Longrightarrow>
   atMostOneHealthCheck w \<Longrightarrow> atMostOneHealthCheck w'"
  by (auto simp: atMostOneHealthCheck_def split: option.splits)

lemma one_Init: "atMostOneHealthCheck w \<Longrightarrow> atMostOneHealthCheck (Init P w)"
  by (auto simp: atMostOneHealthCheck_def Init_def split: option.splits)

lemma one_UseInMemoryClipboard:
  "atMostOneHealthCheck w \<Longrightarrow> atMostOneHealthCheck (UseInMemoryClipboard w)"
  by (auto simp: atMostOneHealthCheck_def UseInMemoryClipboard_def split: option.splits)

lemma one_recovered:
  assumes "atMostOneHealthCheck w" and "healthChecks w \<noteq> 0"
  shows "atMostOneHealthCheck
           ((switchToSystemLocked P w)\<lparr>healthChecks := healthChecks w - 1, leaving := leaving w + 1\<rparr>)"
  using assms
  by (auto simp: atMostOneHealthCheck_def switchToSystemLocked_def split: option.splits)

lemma one_UseCliClipboard:
  "atMostOneHealthCheck w \<Longrightarrow> healthChecks w = 0 \<Longrightarrow>
   atMostOneHealthCheck (snd (UseCliClipboard w))"
  by (auto simp: atMostOneHealthCheck_def UseCliClipboard_def split: option.splits)

lemma one_exec:
  assumes "atMostOneHealthCheck w" and "e \<noteq> CallUseCliClipboard \<or> healthChecks w = 0"
  shows "atMostOneHealthCheck (exec P w e)"
  using exec_control [of P w e] assms
    one_switchToFallback [of w] one_Init [of w P] one_UseInMemoryClipboard [of w]
    one_UseCliClipboard [of w] one_recovered [of w P]
    one_control [of "exec P w e" w] one_control [of "exec P w e" "switchToFallback w"]
  by (elim disjE exE conjE) simp_all

lemma one_foldl:
  "atMostOneHealthCheck w \<Longrightarrow> overridesWhileIdle P w evs \<Longrightarrow>
   atMostOneHealthCheck (foldl (exec P) w evs)"
proof (induction evs arbitrary: w)
  case Nil
  then show ?case by simp
next
  case (Cons e evs)
  from Cons.prems have here: "e \<noteq> CallUseCliClipboard \<or> healthChecks w = 0"
    and rest: "overridesWhileIdle P (exec P w e) evs"
    by simp_all
  from Cons.prems(1) here have "atMostOneHealthCheck (exec P w e)"
    by (rule one_exec)
  from Cons.IH [OF this rest] show ?case by simp
qed

lemma one_run: "overridesWhileIdle P world0 evs \<Longrightarrow> atMostOneHealthCheck (run P evs)"
  unfolding run_def by (rule one_foldl) (simp_all add: atMostOneHealthCheck_def world0_def)

lemma spawn_switchToFallback:
  "state w = Some s \<Longrightarrow>
   healthChecks (switchToFallback w) = (if usingFallback s then healthChecks w else healthChecks w + 1)"
  by (simp add: switchToFallback_def Let_def)

lemma healthChecks_Init: "healthChecks (Init P w) = healthChecks w"
  by (simp add: Init_def split: option.splits)

lemma healthChecks_UseInMemoryClipboard: "healthChecks (UseInMemoryClipboard w) = healthChecks w"
  by (simp add: UseInMemoryClipboard_def split: option.splits)

lemma healthChecks_UseCliClipboard: "healthChecks (snd (UseCliClipboard w)) = healthChecks w"
  by (simp add: UseCliClipboard_def split: option.splits)

lemma spawn_exec:
  assumes "healthChecks w < healthChecks (exec P w e)"
  shows "\<exists>s. state w = Some s \<and> \<not> usingFallback s \<and>
             state (exec P w e) = Some (s\<lparr>active := Some (inMemoryClipboard (fallback s)),
                                          usingFallback := True\<rparr>) \<and>
             healthChecks (exec P w e) = healthChecks w + 1"
proof -
  from exec_control [of P w e] assms healthChecks_Init [of P w]
    healthChecks_UseInMemoryClipboard [of w] healthChecks_UseCliClipboard [of w]
  have sw: "state (exec P w e) = state (switchToFallback w) \<and>
      healthChecks (exec P w e) = healthChecks (switchToFallback w)"
    by (elim disjE exE conjE) simp_all
  with assms show ?thesis
    by (cases "state w") (auto simp: switchToFallback_def Let_def split: if_splits)
qed

lemma recovery_exec:
  assumes "state w = Some s" and "usingFallback s"
    and "state (exec P w e) = Some s'" and "\<not> usingFallback s'"
  shows "e = CallUseCliClipboard \<or>
         ((\<exists>testRead. e = HealthTick testRead \<and> isClipboardResponsive testRead) \<and>
          healthChecks w \<noteq> 0 \<and>
          healthChecks (exec P w e) = healthChecks w - 1 \<and>
          leaving (exec P w e) = leaving w + 1 \<and>
          active s' = Some (getPrimaryClipboard P))"
proof -
  have sw: "state (switchToFallback w) \<noteq> Some s'"
    using assms by (auto simp: switchToFallback_def Let_def)
  have init: "Init P w = w"
    using assms(1) by (simp add: Init_def)
  have mem: "state (UseInMemoryClipboard w) \<noteq> Some s'"
    using assms by (auto simp: UseInMemoryClipboard_def)
  have prim: "state (switchToSystemLocked P w) = Some s' \<Longrightarrow>
      active s' = Some (getPrimaryClipboard P)"
    using assms(1) by (auto simp: switchToSystemLocked_def)
  from exec_control [of P w e] assms sw init mem prim show ?thesis
    by (elim disjE exE conjE) auto
qed

lemma leave_exec:
  "leaving w \<noteq> 0 \<Longrightarrow>
   leaving (exec P w (HealthLeave received)) = leaving w - 1 \<and>
   state (exec P w (HealthLeave received)) = state w"
  by (simp add: healthCheckLeave_def signalHealthCheckDone_def)

text \<open>
  Claim C5, as the code has it.  \<open>switchToFallback\<close> starts a health check exactly when
  the manager was not already using the fallback, and no other step starts one: a step
  that raises the number of health checks takes the manager from a primary backend to
  the fallback and raises the number by one.  In every execution in which
  \<open>UseCliClipboard\<close> is not called while a health check is in its polling loop, at most
  one health check is in its polling loop at any time, and one is only while the manager
  uses the fallback.  A step other than a call of \<open>UseCliClipboard\<close> that takes the
  manager from the fallback back to a primary backend is the tick of a health check whose
  probe, \<open>isClipboardResponsive\<close>, returned true; it sets the primary backend, and that
  health check leaves its loop and then returns.
\<close>

theorem health_check_spawned_once_and_ends_by_recovery:
  "(state w = Some s \<longrightarrow>
      healthChecks (switchToFallback w)
        = (if usingFallback s then healthChecks w else healthChecks w + 1)) \<and>
   (healthChecks w < healthChecks (exec P w e) \<longrightarrow>
      (\<exists>s. state w = Some s \<and> \<not> usingFallback s \<and>
           state (exec P w e) = Some (s\<lparr>active := Some (inMemoryClipboard (fallback s)),
                                        usingFallback := True\<rparr>) \<and>
           healthChecks (exec P w e) = healthChecks w + 1)) \<and>
   (overridesWhileIdle P world0 evs \<longrightarrow>
      healthChecks (run P evs) \<le> 1 \<and>
      (healthChecks (run P evs) = 1 \<longrightarrow>
         (\<exists>s. state (run P evs) = Some s \<and> usingFallback s))) \<and>
   (state w = Some s \<and> usingFallback s \<and> state (exec P w e) = Some s' \<and>
    \<not> usingFallback s' \<and> e \<noteq> CallUseCliClipboard \<longrightarrow>
      (\<exists>testRead. e = HealthTick testRead \<and> isClipboardResponsive testRead) \<and>
      healthChecks w \<noteq> 0 \<and>
      healthChecks (exec P w e) = healthChecks w - 1 \<and>
      leaving (exec P w e) = leaving w + 1 \<and>
      active s' = Some (getPrimaryClipboard P)) \<and>
   (leaving w \<noteq> 0 \<longrightarrow>
      leaving (exec P w (HealthLeave received)) = leaving w - 1 \<and>
      state (exec P w (HealthLeave received)) = state w)"
proof -
  have bounded: "healthChecks (run P evs) \<le> 1 \<and>
      (healthChecks (run P evs) = 1 \<longrightarrow> (\<exists>s. state (run P evs) = Some s \<and> usingFallback s))"
    if "overridesWhileIdle P world0 evs"
    using one_run [OF that]
    by (cases "state (run P evs)") (simp_all add: atMostOneHealthCheck_def)
  from spawn_switchToFallback [of w s] spawn_exec [of w P e] bounded
    recovery_exec [of w s P e s'] leave_exec [of w P received]
  show ?thesis
    by blast
qed

lemma demo_recovered:
  "exec desktop (run desktop [CallInit, CallCopy TimesOut ''x'']) (HealthTick (Completes (Inr []))) =
     \<lparr>state = Some \<lparr>active = Some systemClipboard, fallback = 0, usingFallback = False\<rparr>,
      inMemoryData = (\<lambda>p. [])(0 := ''x''), healthChecks = 0, leaving = 1\<rparr>"
  unfolding demo_failover
  by (simp add: healthCheckTick_def isClipboardResponsive_def switchToSystemLocked_def
      getPrimaryClipboard_def desktop_def)

lemma demo_override_at_startup:
  "run desktop [CallInit, CallUseCliClipboard, CallCopy TimesOut ''x''] =
     \<lparr>state = Some \<lparr>active = Some (inMemoryClipboard 0), fallback = 0, usingFallback = True\<rparr>,
      inMemoryData = (\<lambda>p. [])(0 := ''x''), healthChecks = 1, leaving = 0\<rparr>"
  by (simp add: manager_defs)

theorem health_check_spawned_once_and_ends_by_recovery_witness:
  "state (Init desktop world0)
     = Some \<lparr>active = Some systemClipboard, fallback = 0, usingFallback = False\<rparr> \<and>
   healthChecks (Init desktop world0) = 0 \<and>
   healthChecks (switchToFallback (Init desktop world0)) = 1 \<and>
   healthChecks (exec desktop (Init desktop world0) LateTimeout) = 1 \<and>
   overridesWhileIdle desktop world0 [CallInit, CallCopy TimesOut ''x''] \<and>
   healthChecks (run desktop [CallInit, CallCopy TimesOut ''x'']) = 1 \<and>
   (\<exists>s. state (run desktop [CallInit, CallCopy TimesOut ''x'']) = Some s \<and> usingFallback s) \<and>
   overridesWhileIdle desktop world0 [CallInit, CallUseCliClipboard, CallCopy TimesOut ''x''] \<and>
   healthChecks (run desktop [CallInit, CallUseCliClipboard, CallCopy TimesOut ''x'']) = 1 \<and>
   (\<exists>s. state (run desktop [CallInit, CallUseCliClipboard, CallCopy TimesOut ''x'']) = Some s \<and>
        usingFallback s) \<and>
   isClipboardResponsive (Completes (Inr [])) \<and>
   state (exec desktop (run desktop [CallInit, CallCopy TimesOut ''x''])
            (HealthTick (Completes (Inr []))))
     = Some \<lparr>active = Some systemClipboard, fallback = 0, usingFallback = False\<rparr> \<and>
   healthChecks (exec desktop (run desktop [CallInit, CallCopy TimesOut ''x''])
                   (HealthTick (Completes (Inr []))))
     = healthChecks (run desktop [CallInit, CallCopy TimesOut ''x'']) - 1 \<and>
   leaving (exec desktop (run desktop [CallInit, CallCopy TimesOut ''x''])
              (HealthTick (Completes (Inr [])))) = 1 \<and>
   leaving (exec desktop
              (exec desktop (run desktop [CallInit, CallCopy TimesOut ''x''])
                 (HealthTick (Completes (Inr []))))
              (HealthLeave False)) = 0"
proof -
  let ?sys = "\<lparr>active = Some systemClipboard, fallback = 0, usingFallback = False\<rparr>"
  let ?fb = "\<lparr>active = Some (inMemoryClipboard 0), fallback = 0, usingFallback = True\<rparr>"
  let ?tick = "HealthTick (Completes (Inr []))"
  let ?w0 = "Init desktop world0"
  let ?w1 = "run desktop [CallInit, CallCopy TimesOut ''x'']"
  let ?w2 = "exec desktop ?w1 ?tick"
  let ?v = "run desktop [CallInit, CallUseCliClipboard, CallCopy TimesOut ''x'']"
  have st0: "state ?w0 = Some ?sys" and h0: "healthChecks ?w0 = 0"
    by (simp_all add: demo_init)
  have late: "healthChecks (exec desktop ?w0 LateTimeout) = 1"
    by (simp add: demo_init switchToFallback_def Let_def)
  have idle: "overridesWhileIdle desktop world0 [CallInit, CallCopy TimesOut ''x'']"
    by simp
  have idle': "overridesWhileIdle desktop world0
      [CallInit, CallUseCliClipboard, CallCopy TimesOut ''x'']"
    by (simp add: world0_def healthChecks_Init)
  have st1: "state ?w1 = Some ?fb" and h1: "healthChecks ?w1 = 1" and l1: "leaving ?w1 = 0"
    by (simp_all add: demo_failover)
  have hv: "healthChecks ?v = 1"
    by (simp add: demo_override_at_startup)
  have probe: "isClipboardResponsive (Completes (Inr []))"
    by (simp add: isClipboardResponsive_def)
  have st2: "state ?w2 = Some ?sys"
    by (subst demo_recovered) simp
  have a: "healthChecks (switchToFallback ?w0) = 1"
    using health_check_spawned_once_and_ends_by_recovery [where w = ?w0 and s = ?sys] st0 h0
    by simp
  have b: "healthChecks (exec desktop ?w0 LateTimeout) = healthChecks ?w0 + 1"
    using health_check_spawned_once_and_ends_by_recovery [where w = ?w0 and P = desktop
        and e = LateTimeout] late h0
    by auto
  have c: "\<exists>s. state ?w1 = Some s \<and> usingFallback s"
    using health_check_spawned_once_and_ends_by_recovery [where P = desktop
        and evs = "[CallInit, CallCopy TimesOut ''x'']"] idle h1
    by blast
  have c': "\<exists>s. state ?v = Some s \<and> usingFallback s"
    using health_check_spawned_once_and_ends_by_recovery [where P = desktop
        and evs = "[CallInit, CallUseCliClipboard, CallCopy TimesOut ''x'']"] idle' hv
    by blast
  have d: "healthChecks ?w2 = healthChecks ?w1 - 1 \<and> leaving ?w2 = leaving ?w1 + 1"
    using health_check_spawned_once_and_ends_by_recovery [where w = ?w1 and s = ?fb
        and P = desktop and e = ?tick and s' = ?sys] st1 st2
    by auto
  then have l2: "leaving ?w2 = 1"
    by (simp add: l1)
  have e: "leaving (exec desktop ?w2 (HealthLeave False)) = leaving ?w2 - 1"
    using health_check_spawned_once_and_ends_by_recovery [where w = ?w2 and P = desktop
        and received = False] l2
    by auto
  from st0 h0 a b late idle h1 c idle' hv c' probe st2 d l2 e show ?thesis
    by simp
qed

text \<open>
  With \<open>UseCliClipboard\<close> called while a health check is polling the claim fails.  After
  a failover one health check is polling; \<open>UseCliClipboard\<close> then takes the manager from
  the fallback to the command-line backend with no probe and outside the health check,
  which goes on polling; the next timeout starts a second one.
\<close>

theorem second_health_check_counterexample:
  "state (run desktop [CallInit, CallCopy TimesOut ''a''])
     = Some \<lparr>active = Some (inMemoryClipboard 0), fallback = 0, usingFallback = True\<rparr> \<and>
   healthChecks (run desktop [CallInit, CallCopy TimesOut ''a'']) = 1 \<and>
   state (run desktop [CallInit, CallCopy TimesOut ''a'', CallUseCliClipboard])
     = Some \<lparr>active = Some cliClipboard, fallback = 0, usingFallback = False\<rparr> \<and>
   healthChecks (run desktop [CallInit, CallCopy TimesOut ''a'', CallUseCliClipboard]) = 1 \<and>
   healthChecks (run desktop [CallInit, CallCopy TimesOut ''a'', CallUseCliClipboard,
                              CallCopy TimesOut ''b'']) = 2"
  by (simp add: manager_defs)

end
